theory Spec2Isabelle
  imports
    Complex_Main
    "HOL-Library.AList"
    "HOL-Library.Char_ord"
    "HOL-Library.List_Lexorder"
    "HOL-Library.Multiset"
    "HOL-Library.Product_Lexorder"
    "HOL-Library.Sublist"
begin

section \<open>The event-log analysis script (analysis.py)\<close>

text \<open>
  The script reads JSON event streams, flattens them into rows (\<open>tabulate\<close>), builds
  one table and derives four statistics from it (\<open>button_count\<close>, \<open>gap_time\<close>,
  \<open>clock\<close>, \<open>ngrams\<close>). Each Python function is embedded as a HOL function of the
  same name. An exception is a value \<open>Inl e\<close> of a sum type; what the script prints,
  plots or writes is a list of effects in the order of their execution.
\<close>

subsection \<open>JSON values, as \<open>json.load\<close> returns them\<close>

text \<open>
  \<open>json.load\<close> returns \<open>None\<close>, \<open>bool\<close>, \<open>int\<close>, \<open>str\<close>, \<open>list\<close> and \<open>dict\<close>
  objects. A \<open>dict\<close> is an association list in insertion order, read with \<open>map_of\<close>.
  A \<open>char\<close> stands for one code point of a Python string. Numbers with a fraction or
  an exponent become Python floats; they are not part of this model.
\<close>

datatype json =
    JNull
  | JBool bool
  | JInt int
  | JStr string
  | JArr "json list"
  | JObj "(string \<times> json) list"

datatype py_error =
    KeyError
  | TypeError
  | AttributeError
  | ValueError
  | JSONDecodeError
  | LibraryError

text \<open>Sequencing of two steps, the second of which is skipped when the first raises.\<close>

definition bind_e :: "py_error + 'a \<Rightarrow> ('a \<Rightarrow> py_error + 'b) \<Rightarrow> py_error + 'b" where
  "bind_e m f = (case m of Inl e \<Rightarrow> Inl e | Inr v \<Rightarrow> f v)"

text \<open>A \<open>for\<close> loop that appends one result per element and stops at the first exception.\<close>

fun traverse_e :: "('a \<Rightarrow> py_error + 'b) \<Rightarrow> 'a list \<Rightarrow> py_error + 'b list" where
  "traverse_e f [] = Inr []"
| "traverse_e f (x # xs) =
     bind_e (f x) (\<lambda>y. bind_e (traverse_e f xs) (\<lambda>ys. Inr (y # ys)))"

text \<open>
  \<open>obj[name]\<close> with a string subscript: a \<open>dict\<close> raises \<open>KeyError\<close> on a missing key;
  a \<open>list\<close>, a \<open>str\<close>, a number, a \<open>bool\<close> and \<open>None\<close> raise \<open>TypeError\<close>.
\<close>

fun getitem :: "json \<Rightarrow> string \<Rightarrow> py_error + json" where
  "getitem (JObj kvs) k = (case map_of kvs k of None \<Rightarrow> Inl KeyError | Some v \<Rightarrow> Inr v)"
| "getitem _ k = Inl TypeError"

text \<open>
  \<open>for x in obj\<close>: a \<open>list\<close> yields its elements, a \<open>dict\<close> its keys, a \<open>str\<close> its
  characters as strings of length one; anything else is not iterable.
\<close>

fun iter :: "json \<Rightarrow> py_error + json list" where
  "iter (JArr xs) = Inr xs"
| "iter (JObj kvs) = Inr (map (\<lambda>kv. JStr (fst kv)) kvs)"
| "iter (JStr s) = Inr (map (\<lambda>c. JStr [c]) s)"
| "iter _ = Inl TypeError"

text \<open>
  The key under which a \<open>dict\<close> stores an object. Keys are compared with \<open>==\<close> after
  hashing: \<open>True\<close> and \<open>1\<close> are the same key, and so are \<open>False\<close> and \<open>0\<close>. A
  \<open>list\<close> and a \<open>dict\<close> are unhashable.
\<close>

datatype key = KNone | KInt int | KStr string

fun key_of :: "json \<Rightarrow> py_error + key" where
  "key_of JNull = Inr KNone"
| "key_of (JBool b) = Inr (KInt (if b then 1 else 0))"
| "key_of (JInt i) = Inr (KInt i)"
| "key_of (JStr s) = Inr (KStr s)"
| "key_of (JArr _) = Inl TypeError"
| "key_of (JObj _) = Inl TypeError"

subsection \<open>\<open>tabulate\<close>\<close>

text \<open>
  The comprehension \<open>{agent["id"]: agent["species"] for agent in ...}\<close>: a later agent
  with an id already present replaces the species stored under it.
\<close>

fun agent2species_of :: "(key \<times> json) list \<Rightarrow> json list \<Rightarrow> py_error + (key \<times> json) list" where
  "agent2species_of d [] = Inr d"
| "agent2species_of d (agent # agents) =
     bind_e (getitem agent ''id'') (\<lambda>i.
     bind_e (getitem agent ''species'') (\<lambda>s.
     bind_e (key_of i) (\<lambda>k.
     agent2species_of (AList.update k s d) agents)))"

text \<open>\<open>agent2species[a]\<close>: hashing \<open>a\<close> may raise \<open>TypeError\<close>, a missing key raises \<open>KeyError\<close>.\<close>

definition lookup_species :: "(key \<times> json) list \<Rightarrow> json \<Rightarrow> py_error + json" where
  "lookup_species d a =
     bind_e (key_of a) (\<lambda>k. case map_of d k of None \<Rightarrow> Inl KeyError | Some s \<Rightarrow> Inr s)"

text \<open>The body of the loop over the events: one \<open>dict\<close> of eleven entries.\<close>

definition event_row ::
  "json \<Rightarrow> json \<Rightarrow> json \<Rightarrow> json \<Rightarrow> (key \<times> json) list \<Rightarrow> json \<Rightarrow> py_error + (string \<times> json) list" where
  "event_row file_id provenance start end' agent2species event =
     bind_e (getitem event ''id'') (\<lambda>event_id.
     bind_e (getitem event ''agent'') (\<lambda>agent.
     bind_e (getitem event ''type'') (\<lambda>event_type.
     bind_e (getitem event ''start'') (\<lambda>ev_start.
     bind_e (getitem event ''end'') (\<lambda>ev_end.
     bind_e (lookup_species agent2species agent) (\<lambda>species.
     bind_e (getitem event ''content'') (\<lambda>content.
     Inr [(''file_id'', file_id),
          (''provenance'', provenance),
          (''file_start'', start),
          (''file_end'', end'),
          (''event_id'', event_id),
          (''agent'', agent),
          (''event_type'', event_type),
          (''start'', ev_start),
          (''end'', ev_end),
          (''species'', species),
          (''content'', content)])))))))"

definition tabulate :: "json \<Rightarrow> py_error + (string \<times> json) list list" where
  "tabulate event_stream =
     bind_e (getitem event_stream ''id'') (\<lambda>file_id.
     bind_e (getitem event_stream ''provenance'') (\<lambda>provenance.
     bind_e (getitem event_stream ''start'') (\<lambda>start.
     bind_e (getitem event_stream ''end'') (\<lambda>end'.
     bind_e (getitem event_stream ''agents'') (\<lambda>agents.
     bind_e (iter agents) (\<lambda>agent_list.
     bind_e (agent2species_of [] agent_list) (\<lambda>agent2species.
     bind_e (getitem event_stream ''events'') (\<lambda>events.
     bind_e (iter events) (\<lambda>event_list.
     traverse_e (event_row file_id provenance start end' agent2species) event_list)))))))))"

subsection \<open>The table\<close>

text \<open>
  A row of the data frame after lines 20 to 22 of \<open>main\<close>: nine columns hold the JSON
  values of the rows, \<open>start\<close> and \<open>end\<close> hold what \<open>pd.to_datetime\<close> made of them:
  nanoseconds since the epoch without a time zone, or \<open>None\<close> for \<open>NaT\<close>.
\<close>

record drow =
  file_id :: json
  provenance :: json
  file_start :: json
  file_end :: json
  event_id :: json
  agent :: json
  event_type :: json
  start :: "int option"
  end' :: "int option"
  species :: json
  content :: json

text \<open>The rows \<open>gap_time\<close> works on carry the two columns it adds.\<close>

record grow = drow +
  transition :: bool
  gap :: "rat option"

text \<open>A column of a list of \<open>dict\<close>s; a missing key would give a missing value.\<close>

definition col :: "string \<Rightarrow> (string \<times> json) list \<Rightarrow> json" where
  "col k r = (case map_of r k of None \<Rightarrow> JNull | Some v \<Rightarrow> v)"

definition DataFrame :: "(string \<times> json) list list \<Rightarrow> int option list \<Rightarrow> int option list \<Rightarrow> drow list" where
  "DataFrame rows starts ends =
     map (\<lambda>(r, s, e).
       \<lparr>file_id = col ''file_id'' r, provenance = col ''provenance'' r,
        file_start = col ''file_start'' r, file_end = col ''file_end'' r,
        event_id = col ''event_id'' r, agent = col ''agent'' r,
        event_type = col ''event_type'' r, start = s, end' = e,
        species = col ''species'' r, content = col ''content'' r\<rparr>)
       (zip rows (zip starts ends))"

subsection \<open>What the script does to the outside\<close>

datatype plot =
    Barh "(string \<times> nat) list"
  | Swarmplot "(json \<times> rat option) list"
  | Polar_bar "nat list" nat

datatype effect =
    Print_text string
  | Print_frame "drow list"
  | To_csv string "drow list"
  | Print_counts "(string \<times> nat) list"
  | Savefig string plot
  | Write_file string "((string \<times> string) \<times> nat) list"

text \<open>
  The libraries and the system the script runs on. \<open>to_datetime\<close> parses a column;
  \<open>sort_values\<close> sorts a frame by \<open>start\<close> (pandas does not fix the order of rows with
  equal \<open>start\<close>); \<open>value_counts\<close> counts the distinct values of a column (again with
  no fixed order among equal counts); \<open>total_seconds\<close> converts a difference of
  timestamps, in nanoseconds, to seconds: the result is a float64, given here as the
  rational number that it is, and its rounding is the library's; \<open>run_effect\<close> tells
  whether printing, plotting or writing succeeds or raises.
\<close>

record lib =
  to_datetime :: "json list \<Rightarrow> py_error + int option list"
  sort_values :: "drow list \<Rightarrow> drow list"
  value_counts :: "string list \<Rightarrow> (string \<times> nat) list"
  total_seconds :: "int \<Rightarrow> rat"
  run_effect :: "effect \<Rightarrow> py_error + unit"

text \<open>A run: the effects performed so far, and an exception or a value.\<close>

type_synonym 'a io = "effect list \<times> (py_error + 'a)"

definition bind_io :: "'a io \<Rightarrow> ('a \<Rightarrow> 'b io) \<Rightarrow> 'b io" where
  "bind_io m f =
     (case m of
        (es, Inl e) \<Rightarrow> (es, Inl e)
      | (es, Inr v) \<Rightarrow> (case f v of (es', r) \<Rightarrow> (es @ es', r)))"

definition lift_io :: "py_error + 'a \<Rightarrow> 'a io" where
  "lift_io r = ([], r)"

definition perform :: "lib \<Rightarrow> effect \<Rightarrow> unit io" where
  "perform L e = (case run_effect L e of Inl err \<Rightarrow> ([], Inl err) | Inr u \<Rightarrow> ([e], Inr u))"

subsection \<open>Filters and groups\<close>

text \<open>
  \<open>df.content.str\<close>: the masks of \<open>button_count\<close> and \<open>ngrams\<close> negate the result of
  \<open>str.contains\<close>, which is a missing value for a cell that is not a string; negating
  it raises. So both functions need every cell of \<open>content\<close> to be a string.
\<close>

fun str_of :: "json \<Rightarrow> py_error + string" where
  "str_of (JStr s) = Inr s"
| "str_of _ = Inl LibraryError"

definition content_strs :: "drow list \<Rightarrow> py_error + (drow \<times> string) list" where
  "content_strs df = traverse_e (\<lambda>r. bind_e (str_of (content r)) (\<lambda>c. Inr (r, c))) df"

text \<open>The mask of \<open>button_count\<close> and of the human half of \<open>ngrams\<close>, for a species.\<close>

definition press_mask :: "string \<Rightarrow> drow \<times> string \<Rightarrow> bool" where
  "press_mask sp rc =
     (species (fst rc) = JStr sp \<and>
      \<not> sublist ''OTHER'' (snd rc) \<and>
      \<not> sublist '' or '' (snd rc) \<and>
      snd rc \<noteq> [] \<and>
      snd rc \<noteq> ''null'' \<and>
      length (snd rc) < 10 \<and>
      event_type (fst rc) = JStr ''button_press'')"

text \<open>The mask of the canine half of \<open>ngrams\<close>: it has no test against \<open>"null"\<close>.\<close>

definition canine_token_mask :: "drow \<times> string \<Rightarrow> bool" where
  "canine_token_mask rc =
     (species (fst rc) = JStr ''canis familiaris'' \<and>
      \<not> sublist ''OTHER'' (snd rc) \<and>
      \<not> sublist '' or '' (snd rc) \<and>
      snd rc \<noteq> [] \<and>
      length (snd rc) < 10 \<and>
      event_type (fst rc) = JStr ''button_press'')"

text \<open>
  \<open>groupby("file_id")\<close>: the keys are hashed, rows whose key is missing are dropped,
  the groups come in the order of their keys (numbers before strings) and keep the
  order of their rows.
\<close>

fun key_rank :: "key \<Rightarrow> nat \<times> int \<times> string" where
  "key_rank (KInt i) = (0, i, [])"
| "key_rank (KStr s) = (1, 0, s)"
| "key_rank KNone = (2, 0, [])"

definition groupby :: "('a \<Rightarrow> json) \<Rightarrow> 'a list \<Rightarrow> py_error + (key \<times> 'a list) list" where
  "groupby f df =
     bind_e (traverse_e (\<lambda>r. bind_e (key_of (f r)) (\<lambda>k. Inr (k, r))) df) (\<lambda>krs.
       Inr (map (\<lambda>k. (k, map snd (filter (\<lambda>kr. fst kr = k) krs)))
              (sort_key key_rank (remdups (filter (\<lambda>k. k \<noteq> KNone) (map fst krs))))))"

subsection \<open>\<open>button_count\<close>\<close>

definition button_count :: "lib \<Rightarrow> drow list \<Rightarrow> unit io" where
  "button_count L df =
     bind_io (lift_io (content_strs df)) (\<lambda>rcs.
       let button_hist = rev (value_counts L (map snd (filter (press_mask ''canis familiaris'') rcs)))
       in bind_io (perform L (Print_counts button_hist)) (\<lambda>_.
          perform L (Savefig ''data/button_count'' (Barh button_hist))))"

subsection \<open>\<open>gap_time\<close>\<close>

text \<open>
  Comparing two cells of a column with \<open>==\<close>: a missing value equals nothing, otherwise
  Python compares the objects; \<open>True\<close> equals \<open>1\<close>, and a \<open>dict\<close> does not depend on
  the order of its entries.
\<close>

fun py_norm :: "json \<Rightarrow> json" where
  "py_norm (JBool b) = JInt (if b then 1 else 0)"
| "py_norm (JArr xs) = JArr (map py_norm xs)"
| "py_norm (JObj kvs) = JObj (sort_key fst (map (\<lambda>kv. (fst kv, py_norm (snd kv))) kvs))"
| "py_norm j = j"

definition cell_eq :: "json \<Rightarrow> json \<Rightarrow> bool" where
  "cell_eq a b = (a \<noteq> JNull \<and> b \<noteq> JNull \<and> py_norm a = py_norm b)"

text \<open>
  The columns \<open>transition\<close> and \<open>gap\<close> of one sorted group, row by row; \<open>prev\<close> is the
  row before, \<open>None\<close> for the first row, which \<open>iloc[1:]\<close> leaves out.
\<close>

definition gap_row :: "lib \<Rightarrow> drow option \<Rightarrow> drow \<Rightarrow> grow" where
  "gap_row L prev r =
     (let tr = (case prev of None \<Rightarrow> False | Some p \<Rightarrow> cell_eq (species p) (species r));
          delta = (case prev of
                     None \<Rightarrow> None
                   | Some p \<Rightarrow>
                       (case (start r, end' p) of
                          (Some s, Some e) \<Rightarrow> Some (s - e)
                        | _ \<Rightarrow> None))
      in drow.extend r
           \<lparr>transition = tr,
            gap = (if prev \<noteq> None \<and> tr then map_option (total_seconds L) delta else None)\<rparr>)"

text \<open>The inner function \<open>_gap_time\<close> of \<open>gap_time\<close>.\<close>

definition inner_gap_time :: "lib \<Rightarrow> drow list \<Rightarrow> grow list" where
  "inner_gap_time L df =
     (let df = sort_values L df
      in map (\<lambda>(prev, r). gap_row L prev r) (zip (None # map Some df) df))"

definition rename :: "json \<Rightarrow> json" where
  "rename sp =
     (if sp = JStr ''homo sapeins'' then JStr ''human -> dog''
      else if sp = JStr ''canis familiaris'' then JStr ''human -> dog''
      else sp)"

definition gap_table :: "lib \<Rightarrow> drow list \<Rightarrow> py_error + grow list" where
  "gap_table L df =
     bind_e (groupby file_id df) (\<lambda>groups.
       Inr (concat (map (\<lambda>kg. inner_gap_time L (snd kg)) groups)))"

definition gap_time :: "lib \<Rightarrow> drow list \<Rightarrow> unit io" where
  "gap_time L df =
     bind_io (lift_io (gap_table L df)) (\<lambda>gaps.
       let total = map (\<lambda>r. r\<lparr>species := JStr ''total''\<rparr>) gaps;
           gaps = map (\<lambda>r. r\<lparr>species := rename (species r)\<rparr>) (gaps @ total)
       in perform L (Savefig ''data/gaps.png'' (Swarmplot (map (\<lambda>r. (species r, gap r)) gaps))))"

subsection \<open>\<open>clock\<close>\<close>

definition N :: nat where
  "N = 23"

definition bottom :: nat where
  "bottom = 2"

text \<open>\<open>Series.dt.hour\<close> of a timestamp.\<close>

definition hour :: "int \<Rightarrow> int" where
  "hour t = (t div 3600000000000) mod 24"

text \<open>
  \<open>np.histogram(a, bins)\<close> on integers: the bins divide the range from the least to the
  greatest value into equal parts, each closed on the left and open on the right,
  except the last, which is closed on both sides. An empty array has the range from 0
  to 1; a range of width 0 is widened by one half on each side. numpy computes the
  edges in floating point; on hours, which are integers from 0 to 23, no hour but the
  least and the greatest lies on an edge, and the result is the exact one given here.
\<close>

definition outer_edges :: "int list \<Rightarrow> rat \<times> rat" where
  "outer_edges a =
     (case a of
        [] \<Rightarrow> (0, 1)
      | x # xs \<Rightarrow>
          (let first_edge = of_int (fold min xs x); last_edge = of_int (fold max xs x)
           in if first_edge = last_edge then (first_edge - 1 / 2, last_edge + 1 / 2)
              else (first_edge, last_edge)))"

definition bin_index :: "rat \<Rightarrow> rat \<Rightarrow> nat \<Rightarrow> rat \<Rightarrow> nat" where
  "bin_index first_edge last_edge bins x =
     (if x = last_edge then bins - 1
      else nat \<lfloor>(x - first_edge) * of_nat bins / (last_edge - first_edge)\<rfloor>)"

definition histogram :: "int list \<Rightarrow> nat \<Rightarrow> nat list" where
  "histogram a bins =
     (let edges = outer_edges a
      in map (\<lambda>b. length (filter (\<lambda>x. bin_index (fst edges) (snd edges) bins (of_int x) = b) a))
           [0..<bins])"

text \<open>An hour of \<open>NaT\<close> is not a number, and \<open>np.histogram\<close> refuses a range that is not finite.\<close>

definition clock :: "lib \<Rightarrow> drow list \<Rightarrow> unit io" where
  "clock L df =
     bind_io
       (lift_io (traverse_e (\<lambda>r. case start r of None \<Rightarrow> Inl ValueError | Some t \<Rightarrow> Inr (hour t))
          (filter (\<lambda>r. species r = JStr ''canis familiaris'') df)))
       (\<lambda>hours. perform L (Savefig ''data/press_by_hour.png'' (Polar_bar (histogram hours N) bottom)))"

subsection \<open>\<open>ngrams\<close>\<close>

text \<open>\<open>tuple(sorted([prev, curr]))\<close>\<close>

definition sorted_pair :: "string \<Rightarrow> string \<Rightarrow> string \<times> string" where
  "sorted_pair prev cur = (if cur < prev then (cur, prev) else (prev, cur))"

text \<open>The inner loop over \<open>zip(gdf.content, gdf.content.iloc[1:])\<close>.\<close>

definition adjacent_pairs :: "string list \<Rightarrow> (string \<times> string) list" where
  "adjacent_pairs cs = map (\<lambda>pc. sorted_pair (fst pc) (snd pc)) (zip cs (tl cs))"

text \<open>\<open>collections.Counter\<close>: a \<open>dict\<close> of counts, in the order of first occurrence.\<close>

definition Counter :: "'a list \<Rightarrow> ('a \<times> nat) list" where
  "Counter xs =
     foldl (\<lambda>d x. AList.update x (case map_of d x of None \<Rightarrow> 1 | Some n \<Rightarrow> Suc n) d) [] xs"

text \<open>\<open>Counter.most_common()\<close>: a stable sort by decreasing count.\<close>

definition most_common :: "('a \<times> nat) list \<Rightarrow> ('a \<times> nat) list" where
  "most_common d = sort_key (\<lambda>kv. - int (snd kv)) d"

text \<open>One half of \<open>ngrams\<close>: the loop over the groups, the count, and the file, one line a pair.\<close>

definition write_ngrams :: "lib \<Rightarrow> string \<Rightarrow> (drow \<times> string) list \<Rightarrow> unit io" where
  "write_ngrams L path tokens =
     bind_io (lift_io (groupby (\<lambda>rc. file_id (fst rc)) tokens)) (\<lambda>groups.
       let ngrams = concat (map (\<lambda>kg. adjacent_pairs (map snd (snd kg))) groups);
           count = Counter ngrams
       in perform L (Write_file path (most_common count)))"

definition ngrams :: "lib \<Rightarrow> drow list \<Rightarrow> unit io" where
  "ngrams L df =
     bind_io (lift_io (content_strs df)) (\<lambda>rcs.
     bind_io (write_ngrams L ''data/canine_ngrams.csv'' (filter canine_token_mask rcs)) (\<lambda>_.
     write_ngrams L ''data/human_ngrams.csv'' (filter (press_mask ''homo sapiens'') rcs)))"

subsection \<open>\<open>main\<close>\<close>

text \<open>
  The loop over the files of the data directory. A file is given by what \<open>open\<close> and
  \<open>json.load\<close> make of it: an exception or a JSON value.
\<close>

fun load_rows :: "(py_error + json) list \<Rightarrow> py_error + (string \<times> json) list list" where
  "load_rows [] = Inr []"
| "load_rows (data_file # data_files) =
     bind_e data_file (\<lambda>event_stream.
     bind_e (tabulate event_stream) (\<lambda>rows.
     bind_e (load_rows data_files) (\<lambda>more. Inr (rows @ more))))"

text \<open>
  A frame made of no rows has no columns, so that \<open>df.start\<close> raises. \<open>to_datetime\<close>
  returns one timestamp for each cell.
\<close>

definition main :: "lib \<Rightarrow> string \<Rightarrow> (py_error + json) list \<Rightarrow> unit io" where
  "main L data_dir data_files =
     bind_io (perform L (Print_text (''data directory:  '' @ data_dir))) (\<lambda>_.
     bind_io (lift_io (load_rows data_files)) (\<lambda>rows.
     bind_io (lift_io (if rows = [] then Inl AttributeError else Inr ())) (\<lambda>_.
     bind_io (lift_io (to_datetime L (map (col ''start'') rows))) (\<lambda>starts.
     bind_io (lift_io (to_datetime L (map (col ''end'') rows))) (\<lambda>ends.
       let df = DataFrame rows starts ends
       in bind_io (perform L (Print_frame df)) (\<lambda>_.
          bind_io (perform L (To_csv ''table.csv'' df)) (\<lambda>_.
          bind_io (button_count L df) (\<lambda>_.
          bind_io (gap_time L df) (\<lambda>_.
          bind_io (clock L df) (\<lambda>_.
          ngrams L df))))))))))"

section \<open>Notions used in the statements\<close>

subsection \<open>Event streams\<close>

definition stream_fields :: "string list" where
  "stream_fields = [''id'', ''provenance'', ''start'', ''end'', ''agents'', ''events'']"

definition agent_fields :: "string list" where
  "agent_fields = [''id'', ''species'']"

definition event_fields :: "string list" where
  "event_fields = [''id'', ''agent'', ''type'', ''start'', ''end'', ''content'']"

definition row_fields :: "string list" where
  "row_fields =
     [''file_id'', ''provenance'', ''file_start'', ''file_end'', ''event_id'', ''agent'',
      ''event_type'', ''start'', ''end'', ''species'', ''content'']"

text \<open>The elements the loops of \<open>tabulate\<close> run over: \<open>items es ''events''\<close> are the events.\<close>

definition items :: "json \<Rightarrow> string \<Rightarrow> json list" where
  "items j k = (case bind_e (getitem j k) iter of Inl _ \<Rightarrow> [] | Inr xs \<Rightarrow> xs)"

text \<open>Two identifiers are the same key of a \<open>dict\<close>.\<close>

definition same_key :: "json \<Rightarrow> json \<Rightarrow> bool" where
  "same_key i j = (case key_of i of Inl _ \<Rightarrow> False | Inr k \<Rightarrow> key_of j = Inr k)"

text \<open>The agent \<open>ag\<close> of the agents list has the identifier \<open>a\<close>.\<close>

definition has_id :: "json \<Rightarrow> json \<Rightarrow> bool" where
  "has_id a ag = (case getitem ag ''id'' of Inl _ \<Rightarrow> False | Inr i \<Rightarrow> same_key i a)"

definition lacks :: "json \<Rightarrow> string list \<Rightarrow> bool" where
  "lacks j ks = list_ex (\<lambda>k. isl (getitem j k)) ks"

text \<open>A required field is missing from the stream, from an agent or from an event.\<close>

definition missing_field :: "json \<Rightarrow> bool" where
  "missing_field es =
     (lacks es stream_fields \<or>
      list_ex (\<lambda>ag. lacks ag agent_fields) (items es ''agents'') \<or>
      list_ex (\<lambda>ev. lacks ev event_fields) (items es ''events''))"

text \<open>Some event names an agent that is the identifier of no agent of the agents list.\<close>

definition unknown_agent :: "json \<Rightarrow> bool" where
  "unknown_agent es =
     list_ex (\<lambda>ev. case getitem ev ''agent'' of
                     Inl _ \<Rightarrow> False
                   | Inr a \<Rightarrow> \<not> list_ex (has_id a) (items es ''agents''))
       (items es ''events'')"

text \<open>
  A well-formed stream: no field is missing, \<open>agents\<close> and \<open>events\<close> can be iterated
  over, the identifier of every agent can be a key, and every event names an agent of
  the list.
\<close>

definition well_formed :: "json \<Rightarrow> bool" where
  "well_formed es =
     (\<not> missing_field es \<and>
      \<not> isl (bind_e (getitem es ''agents'') iter) \<and>
      \<not> isl (bind_e (getitem es ''events'') iter) \<and>
      list_all (\<lambda>ag. \<not> isl (bind_e (getitem ag ''id'') key_of)) (items es ''agents'') \<and>
      \<not> unknown_agent es)"

subsection \<open>Sorted groups, species and gaps\<close>

text \<open>\<open>sort_values("start")\<close> puts \<open>NaT\<close> last.\<close>

definition start_key :: "drow \<Rightarrow> nat \<times> int" where
  "start_key r = (case start r of None \<Rightarrow> (1, 0) | Some t \<Rightarrow> (0, t))"

definition sorts_by_start :: "(drow list \<Rightarrow> drow list) \<Rightarrow> bool" where
  "sorts_by_start srt = (\<forall>df. mset (srt df) = mset df \<and> sorted (map start_key (srt df)))"

text \<open>
  The gap of a row after the row \<open>p\<close>: its \<open>start\<close> minus the \<open>end\<close> of \<open>p\<close>, converted
  to seconds by the library, where both timestamps are known.
\<close>

definition gap_after :: "lib \<Rightarrow> drow \<Rightarrow> drow \<Rightarrow> rat option" where
  "gap_after L p r =
     (case (start r, end' p) of
        (Some s, Some e) \<Rightarrow> Some (total_seconds L (s - e))
      | _ \<Rightarrow> None)"

text \<open>
  What a species says when it is a string or a number; a boolean is the number 1 or
  0. Two species are the same when they say the same; a null species says nothing
  and is the same as none.
\<close>

fun label :: "json \<Rightarrow> (int + string) option" where
  "label (JStr s) = Some (Inr s)"
| "label (JInt i) = Some (Inl i)"
| "label (JBool b) = Some (Inl (if b then 1 else 0))"
| "label _ = None"

fun scalar :: "json \<Rightarrow> bool" where
  "scalar (JArr _) = False"
| "scalar (JObj _) = False"
| "scalar _ = True"

definition same_species :: "json \<Rightarrow> json \<Rightarrow> bool" where
  "same_species a b = (label a \<noteq> None \<and> label a = label b)"

subsection \<open>Pairs and effects\<close>

text \<open>The number of places where \<open>a\<close> and \<open>b\<close> stand next to each other in \<open>cs\<close>, in any order.\<close>

definition adjacent_count :: "string list \<Rightarrow> string \<Rightarrow> string \<Rightarrow> nat" where
  "adjacent_count cs a b =
     length (filter (\<lambda>i. {cs ! i, cs ! Suc i} = {a, b}) [0..<length cs - 1])"

definition count_in :: "('a \<times> nat) list \<Rightarrow> 'a \<Rightarrow> nat" where
  "count_in d k = (case map_of d k of None \<Rightarrow> 0 | Some n \<Rightarrow> n)"

text \<open>
  The files that the tokens come from, and the contents of the tokens of one file, in
  their order.
\<close>

definition file_keys :: "(drow \<times> string) list \<Rightarrow> key set" where
  "file_keys tokens = {k. k \<noteq> KNone \<and> (\<exists>rc\<in>set tokens. key_of (file_id (fst rc)) = Inr k)}"

definition file_contents :: "(drow \<times> string) list \<Rightarrow> key \<Rightarrow> string list" where
  "file_contents tokens k = map snd (filter (\<lambda>rc. key_of (file_id (fst rc)) = Inr k) tokens)"

text \<open>
  The lines of a file of pairs count, for every pair \<open>a \<le> b\<close>, the places where \<open>a\<close>
  and \<open>b\<close> are the contents of two consecutive tokens of one file, summed over the
  files. Every pair has one line, and no line has the count 0.
\<close>

definition pair_lines :: "(drow \<times> string) list \<Rightarrow> ((string \<times> string) \<times> nat) list \<Rightarrow> bool" where
  "pair_lines tokens lines =
     (distinct (map fst lines) \<and>
      (\<forall>kv\<in>set lines. 0 < snd kv) \<and>
      (\<forall>a b. count_in lines (a, b) =
         (if a \<le> b then (\<Sum>k\<in>file_keys tokens. adjacent_count (file_contents tokens k) a b)
          else 0)))"

text \<open>The hours of the canine rows, in the order of the table.\<close>

definition canine_hours :: "drow list \<Rightarrow> int list" where
  "canine_hours df =
     concat (map (\<lambda>r. case start r of None \<Rightarrow> [] | Some t \<Rightarrow> [hour t])
       (filter (\<lambda>r. species r = JStr ''canis familiaris'') df))"

text \<open>Where an effect goes: the standard output, or the path of a file.\<close>

fun target :: "effect \<Rightarrow> string" where
  "target (Print_text _) = ''stdout''"
| "target (Print_frame _) = ''stdout''"
| "target (To_csv path _) = path"
| "target (Print_counts _) = ''stdout''"
| "target (Savefig path _) = path"
| "target (Write_file path _) = path"

definition pipeline :: "string list" where
  "pipeline =
     [''stdout'', ''stdout'', ''table.csv'', ''stdout'', ''data/button_count'',
      ''data/gaps.png'', ''data/press_by_hour.png'', ''data/canine_ngrams.csv'',
      ''data/human_ngrams.csv'']"

fun is_pairs_file :: "effect \<Rightarrow> bool" where
  "is_pairs_file (Write_file _ _) = True"
| "is_pairs_file _ = False"

text \<open>
  A run follows a list of targets when its effects go to a beginning of the list, in
  this order, and to the whole list when the run ends without an exception.
\<close>

definition follows :: "'a io \<Rightarrow> string list \<Rightarrow> bool" where
  "follows m ts =
     (prefix (map target (fst m)) ts \<and> (\<not> isl (snd m) \<longrightarrow> map target (fst m) = ts))"

text \<open>The files of the data directory were all loaded and flattened, into these rows.\<close>

definition loaded :: "(py_error + json) list \<Rightarrow> (string \<times> json) list list list \<Rightarrow> bool" where
  "loaded data_files rss =
     list_all2 (\<lambda>data_file rows. \<exists>es. data_file = Inr es \<and> tabulate es = Inr rows) data_files rss"

section \<open>Examples\<close>

text \<open>
  A library for the examples: timestamps are given as integers, sorting is the stable
  insertion sort, counting is that of \<open>Counter\<close>, seconds are the exact quotient (the
  gaps of the examples are whole seconds), and every output succeeds.
\<close>

fun ex_timestamp :: "json \<Rightarrow> py_error + int option" where
  "ex_timestamp (JInt t) = Inr (Some t)"
| "ex_timestamp JNull = Inr None"
| "ex_timestamp _ = Inl ValueError"

definition ex_lib :: lib where
  "ex_lib =
     \<lparr>to_datetime = traverse_e ex_timestamp,
      sort_values = sort_key start_key,
      value_counts = (\<lambda>xs. most_common (Counter xs)),
      total_seconds = (\<lambda>ns. of_int ns / 1000000000),
      run_effect = (\<lambda>_. Inr ())\<rparr>"

definition ex_event :: "string \<Rightarrow> string \<Rightarrow> int \<Rightarrow> int \<Rightarrow> string \<Rightarrow> json" where
  "ex_event i a s e c =
     JObj [(''id'', JStr i), (''agent'', JStr a), (''type'', JStr ''button_press''),
           (''start'', JInt s), (''end'', JInt e), (''content'', JStr c)]"

definition ex_agents :: json where
  "ex_agents =
     JArr [JObj [(''id'', JStr ''a1''), (''species'', JStr ''canis familiaris'')],
           JObj [(''id'', JStr ''a2''), (''species'', JStr ''homo sapiens'')]]"

text \<open>A dog presses two buttons, then a human presses two.\<close>

definition ex_stream :: json where
  "ex_stream =
     JObj [(''id'', JStr ''f1''), (''provenance'', JStr ''lab''),
           (''start'', JInt 0), (''end'', JInt 9000000000),
           (''agents'', ex_agents),
           (''events'',
             JArr [ex_event ''e1'' ''a1'' 0 1000000000 ''ball'',
                   ex_event ''e2'' ''a1'' 3000000000 4000000000 ''out'',
                   ex_event ''e3'' ''a2'' 5000000000 6000000000 ''out'',
                   ex_event ''e4'' ''a2'' 7000000000 8000000000 ''ball''])]"

text \<open>Two agents share an identifier.\<close>

definition dup_stream :: json where
  "dup_stream =
     JObj [(''id'', JStr ''f1''), (''provenance'', JStr ''lab''),
           (''start'', JInt 0), (''end'', JInt 9000000000),
           (''agents'',
             JArr [JObj [(''id'', JStr ''a1''), (''species'', JStr ''canis familiaris'')],
                   JObj [(''id'', JStr ''a1''), (''species'', JStr ''homo sapiens'')]]),
           (''events'', JArr [ex_event ''e1'' ''a1'' 0 1000000000 ''ball''])]"

text \<open>An event names an agent that is not in the list.\<close>

definition bad_stream :: json where
  "bad_stream =
     JObj [(''id'', JStr ''f2''), (''provenance'', JStr ''lab''),
           (''start'', JInt 0), (''end'', JInt 9000000000),
           (''agents'', ex_agents),
           (''events'', JArr [ex_event ''e1'' ''a3'' 0 1000000000 ''ball''])]"

text \<open>The rows of the table that these streams give.\<close>

definition ex_table_row ::
  "string \<Rightarrow> string \<Rightarrow> int \<Rightarrow> int \<Rightarrow> string \<Rightarrow> string \<Rightarrow> (string \<times> json) list" where
  "ex_table_row i a s e c sp =
     [(''file_id'', JStr ''f1''), (''provenance'', JStr ''lab''), (''file_start'', JInt 0),
      (''file_end'', JInt 9000000000), (''event_id'', JStr i), (''agent'', JStr a),
      (''event_type'', JStr ''button_press''), (''start'', JInt s), (''end'', JInt e),
      (''species'', JStr sp), (''content'', JStr c)]"

definition ex_table :: "(string \<times> json) list list" where
  "ex_table =
     [ex_table_row ''e1'' ''a1'' 0 1000000000 ''ball'' ''canis familiaris'',
      ex_table_row ''e2'' ''a1'' 3000000000 4000000000 ''out'' ''canis familiaris'',
      ex_table_row ''e3'' ''a2'' 5000000000 6000000000 ''out'' ''homo sapiens'',
      ex_table_row ''e4'' ''a2'' 7000000000 8000000000 ''ball'' ''homo sapiens'']"

definition dup_table :: "(string \<times> json) list list" where
  "dup_table = [ex_table_row ''e1'' ''a1'' 0 1000000000 ''ball'' ''homo sapiens'']"

text \<open>Two rows of one file, a dog's press and then a human's.\<close>

definition ex_row :: "string \<Rightarrow> int \<Rightarrow> int \<Rightarrow> drow" where
  "ex_row sp s e =
     \<lparr>file_id = JStr ''f1'', provenance = JStr ''lab'', file_start = JInt 0,
      file_end = JInt 9000000000, event_id = JStr ''e'', agent = JStr ''a'',
      event_type = JStr ''button_press'', start = Some s, end' = Some e,
      species = JStr sp, content = JStr ''ball''\<rparr>"

definition ex_turn :: "drow list" where
  "ex_turn =
     [ex_row ''canis familiaris'' 0 1000000000,
      ex_row ''homo sapiens'' 3000000000 4000000000]"

text \<open>Three presses of a dog in one file: \<open>ball\<close>, \<open>out\<close>, \<open>ball\<close>.\<close>

definition ex_presses :: "drow list" where
  "ex_presses =
     [ex_row ''canis familiaris'' 0 1000000000,
      (ex_row ''canis familiaris'' 3000000000 4000000000)\<lparr>content := JStr ''out''\<rparr>,
      ex_row ''canis familiaris'' 5000000000 6000000000]"

text \<open>Two presses of a dog and then one of a human, in one file.\<close>

definition ex_talk :: "drow list" where
  "ex_talk =
     [ex_row ''canis familiaris'' 0 1000000000,
      ex_row ''canis familiaris'' 3000000000 4000000000,
      ex_row ''homo sapiens'' 5000000000 6000000000]"

text \<open>A dog presses once in each of the hours 0 to 22.\<close>

definition ex_day :: "drow list" where
  "ex_day =
     map (\<lambda>h. ex_row ''canis familiaris'' (h * 3600000000000) (h * 3600000000000 + 1000000000))
       [0..22]"

text \<open>A dog presses \<open>ball\<close>, \<open>out\<close>, \<open>ball\<close>, \<open>walk\<close>; a human presses \<open>out\<close>, \<open>ball\<close>.\<close>

definition ranked_stream :: json where
  "ranked_stream =
     JObj [(''id'', JStr ''f1''), (''provenance'', JStr ''lab''),
           (''start'', JInt 0), (''end'', JInt 20000000000),
           (''agents'', ex_agents),
           (''events'',
             JArr [ex_event ''e1'' ''a1'' 0 1000000000 ''ball'',
                   ex_event ''e2'' ''a1'' 2000000000 3000000000 ''out'',
                   ex_event ''e3'' ''a1'' 4000000000 5000000000 ''ball'',
                   ex_event ''e4'' ''a1'' 6000000000 7000000000 ''walk'',
                   ex_event ''e5'' ''a2'' 8000000000 9000000000 ''out'',
                   ex_event ''e6'' ''a2'' 10000000000 11000000000 ''ball''])]"

section \<open>Properties\<close>

subsection \<open>\<open>rename\<close> and the bins of \<open>clock\<close>\<close>

lemma fold_min_Min: "fold min xs (x::int) = Min (set (x # xs))"
  by (simp only: Min.set_eq_fold)

lemma fold_max_Max: "fold max xs (x::int) = Max (set (x # xs))"
  by (simp only: Max.set_eq_fold)

lemma outer_edges_full:
  assumes "0 \<in> set hours" "23 \<in> set hours" "\<forall>h\<in>set hours. 0 \<le> h \<and> h \<le> 23"
  shows "outer_edges hours = (0, 23)"
proof -
  obtain x xs where hx: "hours = x # xs"
    using assms(1) by (cases hours) auto
  have "Min (set hours) = 0"
    using assms by (intro Min_eqI) auto
  moreover have "Max (set hours) = 23"
    using assms by (intro Max_eqI) auto
  ultimately show ?thesis
    unfolding outer_edges_def hx list.case fold_min_Min fold_max_Max
    by (simp add: Let_def)
qed

lemma bin_index_hour:
  assumes "0 \<le> h" "h \<le> 23"
  shows "bin_index 0 23 N (of_int h) = nat (min h 22)"
proof (cases "h = 23")
  case True
  then show ?thesis by (simp add: bin_index_def N_def)
next
  case False
  then have "(of_int h :: rat) \<noteq> 23"
    by (metis of_int_eq_numeral_iff)
  then show ?thesis using assms False by (simp add: bin_index_def N_def)
qed

lemma length_histogram: "length (histogram a bins) = bins"
  by (simp add: histogram_def Let_def)

text \<open>
  Claim C9. The relabelling \<open>rename\<close>, applied to the species before the gap times are
  plotted, maps both \<open>canis familiaris\<close> and the misspelt \<open>homo sapeins\<close> to
  \<open>human -> dog\<close>; the correctly spelt \<open>homo sapiens\<close>, like every other value, is left
  as it is.
\<close>

theorem rename_labels:
  "rename (JStr ''canis familiaris'') = JStr ''human -> dog'' \<and>
   rename (JStr ''homo sapeins'') = JStr ''human -> dog'' \<and>
   rename (JStr ''homo sapiens'') = JStr ''homo sapiens'' \<and>
   rename sp = (if sp = JStr ''homo sapeins'' \<or> sp = JStr ''canis familiaris''
                then JStr ''human -> dog'' else sp)"
  by (simp add: rename_def)

subsection \<open>Exceptions and loops\<close>

lemma bind_e_Inr [simp]: "bind_e (Inr v) f = f v"
  by (simp add: bind_e_def)

lemma bind_e_Inl [simp]: "bind_e (Inl e) f = Inl e"
  by (simp add: bind_e_def)

lemma bind_e_Inr_iff: "bind_e m f = Inr y \<longleftrightarrow> (\<exists>v. m = Inr v \<and> f v = Inr y)"
  by (cases m) simp_all

lemma bind_e_isl_iff: "isl (bind_e m f) \<longleftrightarrow> isl m \<or> (\<exists>v. m = Inr v \<and> isl (f v))"
  by (cases m) simp_all

lemma not_isl_iff: "\<not> isl m \<longleftrightarrow> (\<exists>v. m = Inr v)"
  by (cases m) simp_all

lemma isl_iff: "isl m \<longleftrightarrow> (\<exists>e. m = Inl e)"
  by (cases m) simp_all

lemma traverse_e_Inr_iff:
  "traverse_e f xs = Inr ys \<longleftrightarrow> list_all2 (\<lambda>x y. f x = Inr y) xs ys"
proof (induction xs arbitrary: ys)
  case Nil
  then show ?case by auto
next
  case (Cons x xs)
  then show ?case
    by (auto simp: bind_e_Inr_iff list_all2_Cons1)
qed

lemma traverse_e_total:
  "(\<forall>x\<in>set xs. \<not> isl (f x)) \<Longrightarrow> \<exists>ys. traverse_e f xs = Inr ys"
proof (induction xs)
  case Nil
  then show ?case by simp
next
  case (Cons x xs)
  then obtain y ys where "f x = Inr y" "traverse_e f xs = Inr ys"
    by (auto simp: not_isl_iff)
  then show ?case by simp
qed

lemma traverse_e_length: "traverse_e f xs = Inr ys \<Longrightarrow> length ys = length xs"
  by (simp add: traverse_e_Inr_iff list_all2_lengthD)

lemma traverse_e_nth:
  "traverse_e f xs = Inr ys \<Longrightarrow> i < length xs \<Longrightarrow> f (xs ! i) = Inr (ys ! i)"
  unfolding traverse_e_Inr_iff by (rule list_all2_nthD)

subsection \<open>\<open>tabulate\<close>\<close>

lemma has_id_iff:
  "has_id a ag \<longleftrightarrow> (\<exists>k. bind_e (getitem ag ''id'') key_of = Inr k \<and> key_of a = Inr k)"
  by (cases "getitem ag ''id''"; cases "key_of a")
    (auto simp: has_id_def same_key_def split: sum.splits)

lemma agent2species_of_agents:
  "agent2species_of d ags = Inr d' \<Longrightarrow> ag \<in> set ags \<Longrightarrow>
     \<exists>i s k. getitem ag ''id'' = Inr i \<and> getitem ag ''species'' = Inr s \<and> key_of i = Inr k"
proof (induction ags arbitrary: d)
  case Nil
  then show ?case by simp
next
  case (Cons x xs)
  then show ?case by (auto simp: bind_e_Inr_iff)
qed

lemma agent2species_of_total:
  "(\<forall>ag\<in>set ags. \<not> isl (getitem ag ''species'') \<and> \<not> isl (bind_e (getitem ag ''id'') key_of))
     \<Longrightarrow> \<exists>d'. agent2species_of d ags = Inr d'"
proof (induction ags arbitrary: d)
  case Nil
  then show ?case by simp
next
  case (Cons x xs)
  then obtain i s k where "getitem x ''id'' = Inr i" "key_of i = Inr k" "getitem x ''species'' = Inr s"
    by (auto simp: not_isl_iff bind_e_Inr_iff)
  moreover obtain d' where "agent2species_of (AList.update k s d) xs = Inr d'"
    using Cons by force
  ultimately show ?case by simp
qed

lemma agent2species_of_map_of:
  "agent2species_of d ags = Inr d' \<Longrightarrow>
     map_of d' k =
       (case filter (\<lambda>ag. bind_e (getitem ag ''id'') key_of = Inr k) ags of
          [] \<Rightarrow> map_of d k
        | m # ms \<Rightarrow> (case getitem (last (m # ms)) ''species'' of Inl _ \<Rightarrow> None | Inr s \<Rightarrow> Some s))"
proof (induction ags arbitrary: d)
  case Nil
  then show ?case by simp
next
  case (Cons x xs)
  from Cons.prems obtain i s k0 where x: "getitem x ''id'' = Inr i" "getitem x ''species'' = Inr s"
    "key_of i = Inr k0" and rest: "agent2species_of (AList.update k0 s d) xs = Inr d'"
    by (auto simp: bind_e_Inr_iff)
  note ih = Cons.IH[OF rest]
  show ?case
    using x by (auto simp: ih update_conv' split: list.splits)
qed

lemma event_row_Inr_iff:
  "event_row f p s e d ev = Inr r \<longleftrightarrow>
     (\<exists>i a t st en sp c.
        getitem ev ''id'' = Inr i \<and> getitem ev ''agent'' = Inr a \<and> getitem ev ''type'' = Inr t \<and>
        getitem ev ''start'' = Inr st \<and> getitem ev ''end'' = Inr en \<and>
        lookup_species d a = Inr sp \<and> getitem ev ''content'' = Inr c \<and>
        r = [(''file_id'', f), (''provenance'', p), (''file_start'', s), (''file_end'', e),
             (''event_id'', i), (''agent'', a), (''event_type'', t), (''start'', st),
             (''end'', en), (''species'', sp), (''content'', c)])"
  unfolding event_row_def bind_e_Inr_iff by blast

lemma tabulate_Inr_iff:
  "tabulate es = Inr rows \<longleftrightarrow>
     (\<exists>f p s e ags agl d evs evl.
        getitem es ''id'' = Inr f \<and> getitem es ''provenance'' = Inr p \<and>
        getitem es ''start'' = Inr s \<and> getitem es ''end'' = Inr e \<and>
        getitem es ''agents'' = Inr ags \<and> iter ags = Inr agl \<and>
        agent2species_of [] agl = Inr d \<and>
        getitem es ''events'' = Inr evs \<and> iter evs = Inr evl \<and>
        traverse_e (event_row f p s e d) evl = Inr rows)"
  unfolding tabulate_def bind_e_Inr_iff by blast


lemma traverse_e_set:
  "traverse_e f xs = Inr ys \<Longrightarrow> x \<in> set xs \<Longrightarrow> \<exists>y. f x = Inr y"
  by (metis in_set_conv_nth traverse_e_nth)

lemma items_eq: "getitem es k = Inr v \<Longrightarrow> iter v = Inr xs \<Longrightarrow> items es k = xs"
  by (simp add: items_def)

lemma filter_has_id:
  "key_of a = Inr k \<Longrightarrow>
     filter (has_id a) agl = filter (\<lambda>ag. bind_e (getitem ag ''id'') key_of = Inr k) agl"
  by (rule filter_cong) (auto simp: has_id_iff)

lemma filter_has_id_unhashable: "key_of a = Inl e \<Longrightarrow> filter (has_id a) agl = []"
  by (auto simp: has_id_iff filter_empty_conv)

lemma lookup_species_iff:
  assumes "agent2species_of [] agl = Inr d"
  shows "lookup_species d a = Inr sp \<longleftrightarrow>
           filter (has_id a) agl \<noteq> [] \<and>
           getitem (last (filter (has_id a) agl)) ''species'' = Inr sp"
proof (cases "key_of a")
  case (Inl e)
  then show ?thesis
    by (simp add: lookup_species_def filter_has_id_unhashable)
next
  case (Inr k)
  show ?thesis
  proof (cases "filter (has_id a) agl")
    case Nil
    then show ?thesis
      using agent2species_of_map_of[OF assms, of k] Inr
      by (simp add: lookup_species_def filter_has_id[OF Inr])
  next
    case (Cons m ms)
    have "last (m # ms) \<in> set agl"
      by (metis Cons filter_is_subset last_in_set list.distinct(1) subsetD)
    then obtain s where s: "getitem (last (m # ms)) ''species'' = Inr s"
      using agent2species_of_agents[OF assms] by blast
    show ?thesis
      using agent2species_of_map_of[OF assms, of k] Inr Cons s
      by (auto simp: lookup_species_def filter_has_id[OF Inr])
  qed
qed

lemma lacks_iff: "lacks j ks \<longleftrightarrow> (\<exists>k\<in>set ks. isl (getitem j k))"
  by (simp add: lacks_def list_ex_iff)

lemma tabulate_well_formed:
  assumes "tabulate es = Inr rows"
  shows "well_formed es"
proof -
  from assms obtain f p s e ags agl d evs evl where
    top: "getitem es ''id'' = Inr f" "getitem es ''provenance'' = Inr p"
      "getitem es ''start'' = Inr s" "getitem es ''end'' = Inr e" and
    ag: "getitem es ''agents'' = Inr ags" "iter ags = Inr agl" "agent2species_of [] agl = Inr d" and
    ev: "getitem es ''events'' = Inr evs" "iter evs = Inr evl" and
    tr: "traverse_e (event_row f p s e d) evl = Inr rows"
    unfolding tabulate_Inr_iff by blast
  have ia: "items es ''agents'' = agl" using ag by (simp add: items_eq)
  have ie: "items es ''events'' = evl" using ev by (simp add: items_eq)
  have row: "\<exists>r. event_row f p s e d x = Inr r" if "x \<in> set evl" for x
    using traverse_e_set[OF tr that] .
  have 1: "\<not> lacks es stream_fields"
    using top ag ev by (simp add: lacks_iff stream_fields_def)
  have 2: "\<not> lacks x agent_fields" if "x \<in> set agl" for x
    using agent2species_of_agents[OF ag(3) that] by (auto simp: lacks_iff agent_fields_def)
  have 3: "\<not> lacks x event_fields" if "x \<in> set evl" for x
    using row[OF that] by (auto simp: event_row_Inr_iff lacks_iff event_fields_def)
  have 4: "\<not> isl (bind_e (getitem x ''id'') key_of)" if "x \<in> set agl" for x
    using agent2species_of_agents[OF ag(3) that] by auto
  have 5: "list_ex (has_id a) agl" if "x \<in> set evl" "getitem x ''agent'' = Inr a" for x a
  proof -
    from row[OF that(1)] that(2) obtain sp where "lookup_species d a = Inr sp"
      by (auto simp: event_row_Inr_iff)
    then have "filter (has_id a) agl \<noteq> []"
      by (simp add: lookup_species_iff[OF ag(3)])
    then show ?thesis
      by (auto simp: filter_empty_conv list_ex_iff)
  qed
  have m: "\<not> missing_field es"
    using 1 2 3 by (auto simp: missing_field_def ia ie list_ex_iff)
  have u: "\<not> unknown_agent es"
    using 5 by (auto simp: unknown_agent_def ia ie list_ex_iff split: sum.splits)
  show ?thesis
    using m u 4 ag ev by (simp add: well_formed_def ia list_all_iff)
qed

lemma well_formed_tabulate:
  assumes "well_formed es"
  shows "\<exists>rows. tabulate es = Inr rows"
proof -
  from assms have m: "\<not> missing_field es" and u: "\<not> unknown_agent es"
    and ia: "\<not> isl (bind_e (getitem es ''agents'') iter)"
    and ie: "\<not> isl (bind_e (getitem es ''events'') iter)"
    and ks: "list_all (\<lambda>ag. \<not> isl (bind_e (getitem ag ''id'') key_of)) (items es ''agents'')"
    by (simp_all add: well_formed_def)
  from m have "\<not> lacks es stream_fields" by (simp add: missing_field_def)
  then obtain f p s e where
    top: "getitem es ''id'' = Inr f" "getitem es ''provenance'' = Inr p"
      "getitem es ''start'' = Inr s" "getitem es ''end'' = Inr e"
    by (auto simp: lacks_iff stream_fields_def not_isl_iff)
  from ia obtain ags agl where ag: "getitem es ''agents'' = Inr ags" "iter ags = Inr agl"
    by (auto simp: not_isl_iff bind_e_Inr_iff)
  from ie obtain evs evl where ev: "getitem es ''events'' = Inr evs" "iter evs = Inr evl"
    by (auto simp: not_isl_iff bind_e_Inr_iff)
  have ia': "items es ''agents'' = agl" using ag by (simp add: items_eq)
  have ie': "items es ''events'' = evl" using ev by (simp add: items_eq)
  have "\<forall>x\<in>set agl. \<not> isl (getitem x ''species'') \<and> \<not> isl (bind_e (getitem x ''id'') key_of)"
    using m ks by (auto simp: missing_field_def ia' list_ex_iff list_all_iff lacks_iff agent_fields_def)
  then obtain d where d: "agent2species_of [] agl = Inr d"
    using agent2species_of_total by blast
  have "\<not> isl (event_row f p s e d x)" if x: "x \<in> set evl" for x
  proof -
    from m x have "\<not> lacks x event_fields"
      by (auto simp: missing_field_def ie' list_ex_iff)
    then obtain i a t st en c where
      fs: "getitem x ''id'' = Inr i" "getitem x ''agent'' = Inr a" "getitem x ''type'' = Inr t"
        "getitem x ''start'' = Inr st" "getitem x ''end'' = Inr en" "getitem x ''content'' = Inr c"
      by (auto simp: lacks_iff event_fields_def not_isl_iff)
    from u x fs(2) have known: "filter (has_id a) agl \<noteq> []"
      by (auto simp: unknown_agent_def ia' ie' list_ex_iff filter_empty_conv split: sum.splits)
    then have "last (filter (has_id a) agl) \<in> set agl"
      by (metis filter_is_subset last_in_set subsetD)
    then obtain sp where "getitem (last (filter (has_id a) agl)) ''species'' = Inr sp"
      using agent2species_of_agents[OF d] by blast
    with known have "lookup_species d a = Inr sp"
      by (simp add: lookup_species_iff[OF d])
    with fs have "\<exists>r. event_row f p s e d x = Inr r"
      unfolding event_row_Inr_iff by blast
    then show ?thesis by auto
  qed
  then obtain rows where "traverse_e (event_row f p s e d) evl = Inr rows"
    using traverse_e_total[of evl "event_row f p s e d"] by blast
  with top ag ev d show ?thesis
    unfolding tabulate_Inr_iff by blast
qed

lemma tabulate_row:
  assumes "tabulate es = Inr rows" and "i < length rows"
  shows "\<exists>f p s e ei a t st en sp c.
           getitem es ''id'' = Inr f \<and> getitem es ''provenance'' = Inr p \<and>
           getitem es ''start'' = Inr s \<and> getitem es ''end'' = Inr e \<and>
           getitem (items es ''events'' ! i) ''id'' = Inr ei \<and>
           getitem (items es ''events'' ! i) ''agent'' = Inr a \<and>
           getitem (items es ''events'' ! i) ''type'' = Inr t \<and>
           getitem (items es ''events'' ! i) ''start'' = Inr st \<and>
           getitem (items es ''events'' ! i) ''end'' = Inr en \<and>
           getitem (items es ''events'' ! i) ''content'' = Inr c \<and>
           filter (has_id a) (items es ''agents'') \<noteq> [] \<and>
           getitem (last (filter (has_id a) (items es ''agents''))) ''species'' = Inr sp \<and>
           rows ! i =
             [(''file_id'', f), (''provenance'', p), (''file_start'', s), (''file_end'', e),
              (''event_id'', ei), (''agent'', a), (''event_type'', t), (''start'', st),
              (''end'', en), (''species'', sp), (''content'', c)]"
proof -
  from assms(1) obtain f p s e ags agl d evs evl where
    top: "getitem es ''id'' = Inr f" "getitem es ''provenance'' = Inr p"
      "getitem es ''start'' = Inr s" "getitem es ''end'' = Inr e" and
    ag: "getitem es ''agents'' = Inr ags" "iter ags = Inr agl" "agent2species_of [] agl = Inr d" and
    ev: "getitem es ''events'' = Inr evs" "iter evs = Inr evl" and
    tr: "traverse_e (event_row f p s e d) evl = Inr rows"
    unfolding tabulate_Inr_iff by blast
  have ia: "items es ''agents'' = agl" using ag by (simp add: items_eq)
  have ie: "items es ''events'' = evl" using ev by (simp add: items_eq)
  have "i < length evl" using assms(2) traverse_e_length[OF tr] by simp
  then have "event_row f p s e d (evl ! i) = Inr (rows ! i)"
    by (rule traverse_e_nth[OF tr])
  then show ?thesis
    unfolding event_row_Inr_iff lookup_species_iff[OF ag(3)] ia ie using top by blast
qed

lemma tabulate_length:
  assumes "tabulate es = Inr rows"
  shows "length rows = length (items es ''events'')"
proof -
  from assms obtain f p s e d evs evl where
    ev: "getitem es ''events'' = Inr evs" "iter evs = Inr evl" and
    tr: "traverse_e (event_row f p s e d) evl = Inr rows"
    unfolding tabulate_Inr_iff by blast
  show ?thesis using traverse_e_length[OF tr] ev by (simp add: items_eq)
qed

text \<open>
  Claim C1. A stream is well-formed exactly when \<open>tabulate\<close> returns a list for it.
  The list has one row for each element of the events, in the same order. Each row
  has exactly the eleven fields \<open>file_id\<close>, \<open>provenance\<close>, \<open>file_start\<close>,
  \<open>file_end\<close>, \<open>event_id\<close>, \<open>agent\<close>, \<open>event_type\<close>, \<open>start\<close>, \<open>end\<close>, \<open>species\<close>
  and \<open>content\<close>; the first four are the \<open>id\<close>, \<open>provenance\<close>, \<open>start\<close> and \<open>end\<close>
  of the stream, and the fields of the event are those of the event at that place.
\<close>

theorem tabulate_one_row_per_event:
  "(well_formed es \<longleftrightarrow> (\<exists>rows. tabulate es = Inr rows)) \<and>
   (\<forall>rows. tabulate es = Inr rows \<longrightarrow>
      length rows = length (items es ''events'') \<and>
      (\<forall>i<length rows.
         map fst (rows ! i) = row_fields \<and>
         getitem es ''id'' = Inr (col ''file_id'' (rows ! i)) \<and>
         getitem es ''provenance'' = Inr (col ''provenance'' (rows ! i)) \<and>
         getitem es ''start'' = Inr (col ''file_start'' (rows ! i)) \<and>
         getitem es ''end'' = Inr (col ''file_end'' (rows ! i)) \<and>
         getitem (items es ''events'' ! i) ''id'' = Inr (col ''event_id'' (rows ! i)) \<and>
         getitem (items es ''events'' ! i) ''agent'' = Inr (col ''agent'' (rows ! i)) \<and>
         getitem (items es ''events'' ! i) ''type'' = Inr (col ''event_type'' (rows ! i)) \<and>
         getitem (items es ''events'' ! i) ''start'' = Inr (col ''start'' (rows ! i)) \<and>
         getitem (items es ''events'' ! i) ''end'' = Inr (col ''end'' (rows ! i)) \<and>
         getitem (items es ''events'' ! i) ''content'' = Inr (col ''content'' (rows ! i))))"
proof -
  have a: "well_formed es \<longleftrightarrow> (\<exists>rows. tabulate es = Inr rows)"
    using tabulate_well_formed well_formed_tabulate by blast
  have b: "length rows = length (items es ''events'')" if "tabulate es = Inr rows" for rows
    using that by (rule tabulate_length)
  have c: "map fst (rows ! i) = row_fields \<and>
         getitem es ''id'' = Inr (col ''file_id'' (rows ! i)) \<and>
         getitem es ''provenance'' = Inr (col ''provenance'' (rows ! i)) \<and>
         getitem es ''start'' = Inr (col ''file_start'' (rows ! i)) \<and>
         getitem es ''end'' = Inr (col ''file_end'' (rows ! i)) \<and>
         getitem (items es ''events'' ! i) ''id'' = Inr (col ''event_id'' (rows ! i)) \<and>
         getitem (items es ''events'' ! i) ''agent'' = Inr (col ''agent'' (rows ! i)) \<and>
         getitem (items es ''events'' ! i) ''type'' = Inr (col ''event_type'' (rows ! i)) \<and>
         getitem (items es ''events'' ! i) ''start'' = Inr (col ''start'' (rows ! i)) \<and>
         getitem (items es ''events'' ! i) ''end'' = Inr (col ''end'' (rows ! i)) \<and>
         getitem (items es ''events'' ! i) ''content'' = Inr (col ''content'' (rows ! i))"
    if t: "tabulate es = Inr rows" and i: "i < length rows" for rows i
  proof -
    from tabulate_row[OF t i] obtain f p s e ei a t st en sp c where
      "getitem es ''id'' = Inr f" "getitem es ''provenance'' = Inr p"
      "getitem es ''start'' = Inr s" "getitem es ''end'' = Inr e"
      "getitem (items es ''events'' ! i) ''id'' = Inr ei"
      "getitem (items es ''events'' ! i) ''agent'' = Inr a"
      "getitem (items es ''events'' ! i) ''type'' = Inr t"
      "getitem (items es ''events'' ! i) ''start'' = Inr st"
      "getitem (items es ''events'' ! i) ''end'' = Inr en"
      "getitem (items es ''events'' ! i) ''content'' = Inr c"
      "rows ! i =
         [(''file_id'', f), (''provenance'', p), (''file_start'', s), (''file_end'', e),
          (''event_id'', ei), (''agent'', a), (''event_type'', t), (''start'', st),
          (''end'', en), (''species'', sp), (''content'', c)]"
      by blast
    then show ?thesis
      by (simp add: row_fields_def col_def)
  qed
  show ?thesis
    using a b c by blast
qed

lemma ex_stream_table: "tabulate ex_stream = Inr ex_table"
  by code_simp

lemma dup_stream_table: "tabulate dup_stream = Inr dup_table"
  by code_simp

text \<open>The example stream is well-formed; its third row is the one of its third event.\<close>

theorem tabulate_one_row_per_event_witness:
  "well_formed ex_stream \<and> tabulate ex_stream = Inr ex_table \<and>
   length ex_table = length (items ex_stream ''events'') \<and>
   map fst (ex_table ! 2) = row_fields \<and>
   getitem ex_stream ''id'' = Inr (col ''file_id'' (ex_table ! 2)) \<and>
   getitem (items ex_stream ''events'' ! 2) ''content'' = Inr (col ''content'' (ex_table ! 2))"
proof -
  note t = tabulate_one_row_per_event[of ex_stream]
  have i: "2 < length ex_table" by (simp add: ex_table_def)
  note u = t[THEN conjunct2, rule_format, OF ex_stream_table]
  note v = u[THEN conjunct2, rule_format, OF i]
  have "well_formed ex_stream"
    using t[THEN conjunct1] ex_stream_table by blast
  then show ?thesis
    using ex_stream_table u[THEN conjunct1] v by blast
qed

text \<open>
  Claim C2, amended. For every event of a stream that \<open>tabulate\<close> accepts, some agent of
  the agents list has the event's agent identifier as its id, and the \<open>species\<close> of the
  event's row is the species of the last such agent in the list.
\<close>

theorem species_of_last_agent:
  assumes "tabulate es = Inr rows" and "i < length rows"
    and "getitem (items es ''events'' ! i) ''agent'' = Inr a"
  shows "filter (has_id a) (items es ''agents'') \<noteq> [] \<and>
         getitem (last (filter (has_id a) (items es ''agents''))) ''species'' =
           Inr (col ''species'' (rows ! i))"
  using tabulate_row[OF assms(1,2)] assms(3) by (auto simp: col_def)

text \<open>
  Claim C2 as it is written fails when two agents share an id: the first agent of
  \<open>dup_stream\<close> has the id that the event names and is a dog, and the row of the event
  says \<open>homo sapiens\<close>, the species of the second agent.
\<close>

theorem species_of_first_agent_counterexample:
  "tabulate dup_stream = Inr dup_table \<and>
   getitem (items dup_stream ''events'' ! 0) ''agent'' = Inr (JStr ''a1'') \<and>
   getitem (items dup_stream ''agents'' ! 0) ''id'' = Inr (JStr ''a1'') \<and>
   getitem (items dup_stream ''agents'' ! 0) ''species'' = Inr (JStr ''canis familiaris'') \<and>
   col ''species'' (dup_table ! 0) = JStr ''homo sapiens''"
  by code_simp

text \<open>In \<open>dup_stream\<close> the last agent with the id \<open>a1\<close> is the human.\<close>

theorem species_of_last_agent_witness:
  "tabulate dup_stream = Inr dup_table \<and> 0 < length dup_table \<and>
   getitem (items dup_stream ''events'' ! 0) ''agent'' = Inr (JStr ''a1'') \<and>
   filter (has_id (JStr ''a1'')) (items dup_stream ''agents'') \<noteq> [] \<and>
   getitem (last (filter (has_id (JStr ''a1'')) (items dup_stream ''agents''))) ''species'' =
     Inr (col ''species'' (dup_table ! 0)) \<and>
   col ''species'' (dup_table ! 0) = JStr ''homo sapiens''"
proof -
  have l: "0 < length dup_table" by (simp add: dup_table_def)
  have a: "getitem (items dup_stream ''events'' ! 0) ''agent'' = Inr (JStr ''a1'')"
    by code_simp
  have c: "col ''species'' (dup_table ! 0) = JStr ''homo sapiens''"
    by code_simp
  show ?thesis
    using species_of_last_agent[OF dup_stream_table l a] dup_stream_table l a c by blast
qed

subsection \<open>Runs\<close>

lemma bind_io_Inr_iff:
  "bind_io m f = (es, Inr y) \<longleftrightarrow>
     (\<exists>es1 v es2. m = (es1, Inr v) \<and> f v = (es2, Inr y) \<and> es = es1 @ es2)"
  by (cases m; cases "snd m") (auto simp: bind_io_def split: prod.splits)

lemma bind_io_raised: "snd m = Inl e \<Longrightarrow> bind_io m f = (fst m, Inl e)"
  by (cases m) (simp add: bind_io_def)

lemma bind_io_returned:
  "snd m = Inr v \<Longrightarrow> bind_io m f = (fst m @ fst (f v), snd (f v))"
  by (cases m) (simp add: bind_io_def split: prod.splits)

lemma perform_Inr_iff: "perform L e = (es, Inr u) \<longleftrightarrow> run_effect L e = Inr u \<and> es = [e]"
  by (cases "run_effect L e") (auto simp: perform_def)

lemma lift_io_iff: "lift_io r = (es, x) \<longleftrightarrow> es = [] \<and> r = x"
  by (auto simp: lift_io_def)

lemma follows_lift: "follows (lift_io r) []"
  by (simp add: follows_def lift_io_def)

lemma follows_perform: "follows (perform L e) [target e]"
  by (cases "run_effect L e") (simp_all add: follows_def perform_def)

lemma follows_bind:
  assumes "follows m xs" and "\<And>v. snd m = Inr v \<Longrightarrow> follows (f v) ys"
  shows "follows (bind_io m f) (xs @ ys)"
proof (cases "snd m")
  case (Inl e)
  with assms(1) show ?thesis
    by (simp add: bind_io_raised follows_def prefix_prefix)
next
  case (Inr v)
  with assms(1) have "map target (fst m) = xs"
    by (simp add: follows_def)
  with assms(2)[OF Inr] Inr show ?thesis
    by (simp add: bind_io_returned follows_def)
qed

lemma follows_bind_lift:
  "(\<And>v. r = Inr v \<Longrightarrow> follows (f v) ys) \<Longrightarrow> follows (bind_io (lift_io r) f) ys"
  using follows_bind[OF follows_lift, of r f ys] by (simp add: lift_io_def)

lemma follows_perform_to: "target e = t \<Longrightarrow> follows (perform L e) [t]"
  using follows_perform[of L e] by simp

lemma follows_bind_perform:
  "target e = t \<Longrightarrow> follows k ys \<Longrightarrow> follows (bind_io (perform L e) (\<lambda>_. k)) (t # ys)"
  using follows_bind[OF follows_perform, of L e "\<lambda>_. k" ys] by auto

subsection \<open>The stages\<close>

lemma follows_button_count:
  "follows (button_count L df) [''stdout'', ''data/button_count'']"
  unfolding button_count_def Let_def
  by (intro follows_bind_lift follows_bind_perform follows_perform_to) simp_all

lemma follows_gap_time: "follows (gap_time L df) [''data/gaps.png'']"
  unfolding gap_time_def Let_def
  by (intro follows_bind_lift follows_perform_to) simp

lemma follows_clock: "follows (clock L df) [''data/press_by_hour.png'']"
  unfolding clock_def
  by (intro follows_bind_lift follows_perform_to) simp

lemma follows_write_ngrams: "follows (write_ngrams L path tokens) [path]"
  unfolding write_ngrams_def Let_def
  by (intro follows_bind_lift follows_perform_to) simp

lemma follows_ngrams:
  "follows (ngrams L df) [''data/canine_ngrams.csv'', ''data/human_ngrams.csv'']"
proof -
  have "follows (bind_io (write_ngrams L ''data/canine_ngrams.csv'' a)
          (\<lambda>_. write_ngrams L ''data/human_ngrams.csv'' b))
          ([''data/canine_ngrams.csv''] @ [''data/human_ngrams.csv''])" for a b
    by (rule follows_bind) (rule follows_write_ngrams)+
  then show ?thesis
    unfolding ngrams_def by (intro follows_bind_lift) simp
qed

lemma follows_stages:
  "follows
     (bind_io (button_count L df) (\<lambda>_.
      bind_io (gap_time L df) (\<lambda>_.
      bind_io (clock L df) (\<lambda>_. ngrams L df))))
     ([''stdout'', ''data/button_count''] @ [''data/gaps.png''] @ [''data/press_by_hour.png''] @
      [''data/canine_ngrams.csv'', ''data/human_ngrams.csv''])"
  by (intro follows_bind follows_button_count follows_gap_time follows_clock follows_ngrams)

lemma follows_main: "follows (main L data_dir data_files) pipeline"
proof -
  have "follows
     (bind_io (perform L (Print_frame df)) (\<lambda>_.
      bind_io (perform L (To_csv ''table.csv'' df)) (\<lambda>_.
      bind_io (button_count L df) (\<lambda>_.
      bind_io (gap_time L df) (\<lambda>_.
      bind_io (clock L df) (\<lambda>_. ngrams L df))))))
     (tl pipeline)" for df
    unfolding pipeline_def list.sel
    by (intro follows_bind_perform follows_stages[simplified]) simp_all
  then have "follows (main L data_dir data_files) (''stdout'' # tl pipeline)"
    unfolding main_def Let_def
    by (intro follows_bind_perform follows_bind_lift) simp_all
  then show ?thesis by (simp add: pipeline_def)
qed

subsection \<open>\<open>main\<close>\<close>

lemma bind_io_InrE:
  assumes "bind_io m f = (es, Inr y)"
  obtains es1 v es2 where "m = (es1, Inr v)" "f v = (es2, Inr y)" "es = es1 @ es2"
  using assms unfolding bind_io_Inr_iff by blast

lemma bind_io_lift_Inl: "bind_io (lift_io (Inl e)) f = ([], Inl e)"
  by (simp add: bind_io_def lift_io_def)

lemma load_rows_Inr_iff:
  "load_rows data_files = Inr rows \<longleftrightarrow> (\<exists>rss. loaded data_files rss \<and> rows = concat rss)"
proof (induction data_files arbitrary: rows)
  case Nil
  then show ?case by (auto simp: loaded_def)
next
  case (Cons f fs)
  show ?case
  proof
    assume "load_rows (f # fs) = Inr rows"
    then obtain s r more where f: "f = Inr s" "tabulate s = Inr r" "load_rows fs = Inr more"
      and rows: "rows = r @ more"
      by (auto simp: bind_e_Inr_iff)
    from f(3) obtain rss where "loaded fs rss" "more = concat rss"
      unfolding Cons.IH by blast
    with f rows have "loaded (f # fs) (r # rss) \<and> rows = concat (r # rss)"
      by (simp add: loaded_def)
    then show "\<exists>rss. loaded (f # fs) rss \<and> rows = concat rss" by blast
  next
    assume "\<exists>rss. loaded (f # fs) rss \<and> rows = concat rss"
    then obtain s r rss where f: "f = Inr s" "tabulate s = Inr r" and "loaded fs rss"
      and rows: "rows = r @ concat rss"
      by (auto simp: loaded_def list_all2_Cons1)
    then have "load_rows fs = Inr (concat rss)"
      unfolding Cons.IH by blast
    with f rows show "load_rows (f # fs) = Inr rows" by simp
  qed
qed

lemma load_rows_raises:
  "load_rows data_files = Inl e \<Longrightarrow>
     \<exists>j<length data_files.
        (data_files ! j = Inl e \<or> (\<exists>s. data_files ! j = Inr s \<and> tabulate s = Inl e)) \<and>
        (\<forall>k<j. \<exists>s r. data_files ! k = Inr s \<and> tabulate s = Inr r)"
proof (induction data_files)
  case Nil
  then show ?case by simp
next
  case (Cons f fs)
  show ?case
  proof (cases f)
    case (Inl e')
    with Cons.prems show ?thesis by (intro exI[of _ 0]) simp
  next
    case f: (Inr s)
    show ?thesis
    proof (cases "tabulate s")
      case (Inl e')
      with Cons.prems f show ?thesis by (intro exI[of _ 0]) simp
    next
      case (Inr r)
      with Cons.prems f have "load_rows fs = Inl e"
        by (cases "load_rows fs") simp_all
      from Cons.IH[OF this] obtain j where j: "j < length fs"
        "fs ! j = Inl e \<or> (\<exists>s. fs ! j = Inr s \<and> tabulate s = Inl e)"
        "\<forall>k<j. \<exists>s r. fs ! k = Inr s \<and> tabulate s = Inr r"
        by blast
      have "\<exists>s r. (f # fs) ! k = Inr s \<and> tabulate s = Inr r" if "k < Suc j" for k
        using that j(3) f Inr by (cases k) auto
      with j(1,2) show ?thesis
        by (intro exI[of _ "Suc j"]) simp
    qed
  qed
qed

lemma load_rows_bad_file:
  assumes "i < length data_files"
    and "isl (data_files ! i) \<or> (\<exists>s. data_files ! i = Inr s \<and> isl (tabulate s))"
  shows "\<exists>e j. j \<le> i \<and> load_rows data_files = Inl e \<and>
           (data_files ! j = Inl e \<or> (\<exists>s. data_files ! j = Inr s \<and> tabulate s = Inl e))"
proof -
  have bad: False if "data_files ! i = Inr s" "tabulate s = Inr r" for s r
    using assms(2) that by simp
  show ?thesis
  proof (cases "load_rows data_files")
    case (Inl e)
    from load_rows_raises[OF this] obtain j where j: "j < length data_files"
      "data_files ! j = Inl e \<or> (\<exists>s. data_files ! j = Inr s \<and> tabulate s = Inl e)"
      "\<forall>k<j. \<exists>s r. data_files ! k = Inr s \<and> tabulate s = Inr r"
      by blast
    have "j \<le> i"
    proof (rule ccontr)
      assume "\<not> j \<le> i"
      then have "i < j" by simp
      with j(3) obtain s r where "data_files ! i = Inr s" "tabulate s = Inr r"
        by blast
      then show False by (rule bad)
    qed
    with Inl j(2) show ?thesis by blast
  next
    case (Inr rows)
    then obtain rss where "loaded data_files rss"
      unfolding load_rows_Inr_iff by blast
    then have "\<exists>es. data_files ! i = Inr es \<and> tabulate es = Inr (rss ! i)"
      unfolding loaded_def using assms(1) by (rule list_all2_nthD)
    then show ?thesis using bad by blast
  qed
qed

lemma main_load_raises:
  assumes "load_rows data_files = Inl e"
  shows "main L data_dir data_files =
    (case run_effect L (Print_text (''data directory:  '' @ data_dir)) of
       Inl e' \<Rightarrow> ([], Inl e')
     | Inr u \<Rightarrow> ([Print_text (''data directory:  '' @ data_dir)], Inl e))"
  unfolding main_def assms bind_io_lift_Inl
  by (cases "run_effect L (Print_text (''data directory:  '' @ data_dir))")
    (simp_all add: bind_io_raised bind_io_returned perform_def)

lemma tabulate_malformed:
  assumes "missing_field es \<or> unknown_agent es"
  shows "\<exists>e. tabulate es = Inl e"
proof (cases "tabulate es")
  case (Inl e)
  then show ?thesis by blast
next
  case (Inr rows)
  then have "well_formed es" by (rule tabulate_well_formed)
  with assms show ?thesis by (simp add: well_formed_def)
qed

lemma main_returns:
  assumes "main L data_dir data_files = (effs, Inr u)"
  shows "\<exists>rows starts ends.
           load_rows data_files = Inr rows \<and> rows \<noteq> [] \<and>
           to_datetime L (map (col ''start'') rows) = Inr starts \<and>
           to_datetime L (map (col ''end'') rows) = Inr ends \<and>
           effs =
             [Print_text (''data directory:  '' @ data_dir),
              Print_frame (DataFrame rows starts ends),
              To_csv ''table.csv'' (DataFrame rows starts ends)] @
             fst (button_count L (DataFrame rows starts ends)) @
             fst (gap_time L (DataFrame rows starts ends)) @
             fst (clock L (DataFrame rows starts ends)) @
             fst (ngrams L (DataFrame rows starts ends)) \<and>
           snd (button_count L (DataFrame rows starts ends)) = Inr () \<and>
           snd (gap_time L (DataFrame rows starts ends)) = Inr () \<and>
           snd (clock L (DataFrame rows starts ends)) = Inr () \<and>
           snd (ngrams L (DataFrame rows starts ends)) = Inr ()"
  using assms
  unfolding main_def Let_def
  apply (elim bind_io_InrE)
  apply (simp add: perform_Inr_iff lift_io_iff split: if_splits)
  done

subsection \<open>Malformed input and the order of the pipeline\<close>

text \<open>
  Claim C6. When a required field is missing from a stream, or an event names an agent
  that is not in the agents list, \<open>tabulate\<close> raises. When the loader or \<open>tabulate\<close>
  raises for some file, \<open>main\<close> ends with an exception: the one of the first file
  that fails, not caught and not retried (or the one of the first \<open>print\<close>, if that
  fails). The only effect of the run is then that first \<open>print\<close>: no table, no plot
  and no file of pairs is written.
\<close>

theorem malformed_input_raises:
  "(missing_field es \<or> unknown_agent es \<longrightarrow> (\<exists>e. tabulate es = Inl e)) \<and>
   (i < length data_files \<and>
    (isl (data_files ! i) \<or>
     (\<exists>s. data_files ! i = Inr s \<and> (missing_field s \<or> unknown_agent s))) \<longrightarrow>
    (\<exists>e j. j \<le> i \<and>
       (data_files ! j = Inl e \<or> (\<exists>s. data_files ! j = Inr s \<and> tabulate s = Inl e)) \<and>
       main L data_dir data_files =
         (case run_effect L (Print_text (''data directory:  '' @ data_dir)) of
            Inl e' \<Rightarrow> ([], Inl e')
          | Inr u \<Rightarrow> ([Print_text (''data directory:  '' @ data_dir)], Inl e))))"
proof (intro conjI impI)
  assume "missing_field es \<or> unknown_agent es"
  then show "\<exists>e. tabulate es = Inl e" by (rule tabulate_malformed)
next
  assume a: "i < length data_files \<and>
    (isl (data_files ! i) \<or>
     (\<exists>s. data_files ! i = Inr s \<and> (missing_field s \<or> unknown_agent s)))"
  then have "isl (data_files ! i) \<or> (\<exists>s. data_files ! i = Inr s \<and> isl (tabulate s))"
    using tabulate_malformed by (metis sum.disc(1))
  with a obtain e j where j: "j \<le> i" "load_rows data_files = Inl e"
    "data_files ! j = Inl e \<or> (\<exists>s. data_files ! j = Inr s \<and> tabulate s = Inl e)"
    using load_rows_bad_file[of i data_files] by blast
  from main_load_raises[OF j(2)] j(1,3)
  show "\<exists>e j. j \<le> i \<and>
       (data_files ! j = Inl e \<or> (\<exists>s. data_files ! j = Inr s \<and> tabulate s = Inl e)) \<and>
       main L data_dir data_files =
         (case run_effect L (Print_text (''data directory:  '' @ data_dir)) of
            Inl e' \<Rightarrow> ([], Inl e')
          | Inr u \<Rightarrow> ([Print_text (''data directory:  '' @ data_dir)], Inl e))"
    by blast
qed

text \<open>A good file followed by one whose event names the unknown agent \<open>a3\<close>.\<close>

theorem malformed_input_raises_witness:
  "unknown_agent bad_stream \<and> tabulate bad_stream = Inl KeyError \<and>
   main ex_lib ''data'' [Inr ex_stream, Inr bad_stream] =
     ([Print_text ''data directory:  data''], Inl KeyError)"
proof -
  let ?fs = "[Inr ex_stream, Inr bad_stream] :: (py_error + json) list"
  have u: "unknown_agent bad_stream" by code_simp
  have t: "tabulate bad_stream = Inl KeyError" by code_simp
  have h: "1 < length ?fs \<and>
    (isl (?fs ! 1) \<or> (\<exists>s. ?fs ! 1 = Inr s \<and> (missing_field s \<or> unknown_agent s)))"
    using u by simp
  note m = malformed_input_raises[of bad_stream 1 ?fs ex_lib "''data''"]
  from m[THEN conjunct2, THEN mp, OF h] obtain e j where j: "j \<le> 1"
    "?fs ! j = Inl e \<or> (\<exists>s. ?fs ! j = Inr s \<and> tabulate s = Inl e)"
    "main ex_lib ''data'' ?fs =
       (case run_effect ex_lib (Print_text (''data directory:  '' @ ''data'')) of
            Inl e' \<Rightarrow> ([], Inl e')
          | Inr u \<Rightarrow> ([Print_text (''data directory:  '' @ ''data'')], Inl e))"
    by blast
  from j(1) have "j = 0 \<or> j = 1" by auto
  with j(2) t ex_stream_table have "e = KeyError" by auto
  with j(3) have "main ex_lib ''data'' ?fs = ([Print_text ''data directory:  data''], Inl KeyError)"
    by (simp add: ex_lib_def)
  with u t show ?thesis by (intro conjI)
qed

lemma length_main_load_raises:
  "load_rows data_files = Inl e \<Longrightarrow> length (fst (main L data_dir data_files)) \<le> 1"
  unfolding main_load_raises by (simp split: sum.splits)

text \<open>
  Claim C7. The effects of \<open>main\<close> go to a beginning of the list \<open>pipeline\<close>, in that
  order, and to the whole list when the run ends without an exception: the two
  prints, \<open>table.csv\<close>, the print and the chart of \<open>button_count\<close>, the chart of
  \<open>gap_time\<close>, the chart of \<open>clock\<close>, and the two files of \<open>ngrams\<close>. Nothing comes
  after the first print unless every file has been loaded and flattened. In a run
  without an exception the table is made of the rows of all files, in their order,
  and all four stages work on that table.
\<close>

theorem main_is_a_linear_pipeline:
  "follows (main L data_dir data_files) pipeline \<and>
   (1 < length (fst (main L data_dir data_files)) \<longrightarrow> (\<exists>rss. loaded data_files rss)) \<and>
   (\<forall>effs. main L data_dir data_files = (effs, Inr ()) \<longrightarrow>
      (\<exists>rss starts ends.
         loaded data_files rss \<and>
         to_datetime L (map (col ''start'') (concat rss)) = Inr starts \<and>
         to_datetime L (map (col ''end'') (concat rss)) = Inr ends \<and>
         effs =
           [Print_text (''data directory:  '' @ data_dir),
            Print_frame (DataFrame (concat rss) starts ends),
            To_csv ''table.csv'' (DataFrame (concat rss) starts ends)] @
           fst (button_count L (DataFrame (concat rss) starts ends)) @
           fst (gap_time L (DataFrame (concat rss) starts ends)) @
           fst (clock L (DataFrame (concat rss) starts ends)) @
           fst (ngrams L (DataFrame (concat rss) starts ends))))"
proof (intro conjI allI impI)
  show "follows (main L data_dir data_files) pipeline" by (rule follows_main)
next
  assume l: "1 < length (fst (main L data_dir data_files))"
  show "\<exists>rss. loaded data_files rss"
  proof (cases "load_rows data_files")
    case (Inl e)
    from length_main_load_raises[OF this, of L data_dir] l show ?thesis by simp
  next
    case (Inr rows)
    then show ?thesis unfolding load_rows_Inr_iff by blast
  qed
next
  fix effs assume "main L data_dir data_files = (effs, Inr ())"
  from main_returns[OF this] obtain rows starts ends where
    r: "load_rows data_files = Inr rows"
      "to_datetime L (map (col ''start'') rows) = Inr starts"
      "to_datetime L (map (col ''end'') rows) = Inr ends"
      "effs =
           [Print_text (''data directory:  '' @ data_dir),
            Print_frame (DataFrame rows starts ends),
            To_csv ''table.csv'' (DataFrame rows starts ends)] @
           fst (button_count L (DataFrame rows starts ends)) @
           fst (gap_time L (DataFrame rows starts ends)) @
           fst (clock L (DataFrame rows starts ends)) @
           fst (ngrams L (DataFrame rows starts ends))"
    by blast
  from r(1) obtain rss where "loaded data_files rss" "rows = concat rss"
    unfolding load_rows_Inr_iff by blast
  with r(2-) show "\<exists>rss starts ends.
         loaded data_files rss \<and>
         to_datetime L (map (col ''start'') (concat rss)) = Inr starts \<and>
         to_datetime L (map (col ''end'') (concat rss)) = Inr ends \<and>
         effs =
           [Print_text (''data directory:  '' @ data_dir),
            Print_frame (DataFrame (concat rss) starts ends),
            To_csv ''table.csv'' (DataFrame (concat rss) starts ends)] @
           fst (button_count L (DataFrame (concat rss) starts ends)) @
           fst (gap_time L (DataFrame (concat rss) starts ends)) @
           fst (clock L (DataFrame (concat rss) starts ends)) @
           fst (ngrams L (DataFrame (concat rss) starts ends))"
    by blast
qed

lemma ex_main_returns: "snd (main ex_lib ''data'' [Inr ex_stream]) = Inr ()"
  by code_simp

text \<open>The run on the example stream goes through the whole pipeline.\<close>

theorem main_is_a_linear_pipeline_witness:
  "snd (main ex_lib ''data'' [Inr ex_stream]) = Inr () \<and>
   map target (fst (main ex_lib ''data'' [Inr ex_stream])) = pipeline \<and>
   (\<exists>rss. loaded [Inr ex_stream] rss)"
proof -
  note t = main_is_a_linear_pipeline[of ex_lib "''data''" "[Inr ex_stream]"]
  from t[THEN conjunct1] ex_main_returns
  have p: "map target (fst (main ex_lib ''data'' [Inr ex_stream])) = pipeline"
    by (simp add: follows_def)
  then have "length (map target (fst (main ex_lib ''data'' [Inr ex_stream]))) = length pipeline"
    by (simp only:)
  then have "1 < length (fst (main ex_lib ''data'' [Inr ex_stream]))"
    by (simp add: pipeline_def)
  from t[THEN conjunct2, THEN conjunct1, THEN mp, OF this] p ex_main_returns
  show ?thesis by blast
qed

subsection \<open>\<open>ngrams\<close>\<close>

lemma sorted_most_common: "sorted_wrt (\<ge>) (map snd (most_common d))"
proof -
  have "sorted (map (\<lambda>kv. - int (snd kv)) (most_common d))"
    unfolding most_common_def by (rule sorted_sort_key)
  then show ?thesis
    by (simp add: sorted_map sorted_wrt_map)
qed

lemma write_ngrams_returns:
  assumes "write_ngrams L path tokens = (es, Inr u)"
  shows "\<exists>groups. groupby (\<lambda>rc. file_id (fst rc)) tokens = Inr groups \<and>
           es = [Write_file path
                   (most_common (Counter (concat (map (\<lambda>kg. adjacent_pairs (map snd (snd kg))) groups))))]"
  using assms unfolding write_ngrams_def Let_def
  by (elim bind_io_InrE) (simp add: perform_Inr_iff lift_io_iff)

lemma ngrams_returns:
  assumes "ngrams L df = (es, Inr u)"
  shows "\<exists>rcs cg hg.
           content_strs df = Inr rcs \<and>
           groupby (\<lambda>rc. file_id (fst rc)) (filter canine_token_mask rcs) = Inr cg \<and>
           groupby (\<lambda>rc. file_id (fst rc)) (filter (press_mask ''homo sapiens'') rcs) = Inr hg \<and>
           es =
             [Write_file ''data/canine_ngrams.csv''
                (most_common (Counter (concat (map (\<lambda>kg. adjacent_pairs (map snd (snd kg))) cg)))),
              Write_file ''data/human_ngrams.csv''
                (most_common (Counter (concat (map (\<lambda>kg. adjacent_pairs (map snd (snd kg))) hg))))]"
proof -
  from assms obtain rcs e1 e2 where r: "content_strs df = Inr rcs"
    and c: "write_ngrams L ''data/canine_ngrams.csv'' (filter canine_token_mask rcs) = (e1, Inr ())"
    and h: "write_ngrams L ''data/human_ngrams.csv'' (filter (press_mask ''homo sapiens'') rcs) = (e2, Inr u)"
    and es: "es = e1 @ e2"
    unfolding ngrams_def
    by (elim bind_io_InrE) (auto simp: lift_io_iff)
  from write_ngrams_returns[OF c] write_ngrams_returns[OF h] r es show ?thesis
    by auto
qed

lemma filter_bind_io:
  "filter P (fst (bind_io m f)) =
     filter P (fst m) @ (case snd m of Inl _ \<Rightarrow> [] | Inr v \<Rightarrow> filter P (fst (f v)))"
  by (cases m; cases "snd m") (auto simp: bind_io_def split: prod.splits)

lemma filter_perform: "\<not> P e \<Longrightarrow> filter P (fst (perform L e)) = []"
  by (cases "run_effect L e") (simp_all add: perform_def)

lemma filter_lift_io: "filter P (fst (lift_io r)) = []"
  by (simp add: lift_io_def)

lemma no_pairs_button_count: "filter is_pairs_file (fst (button_count L df)) = []"
  by (simp add: button_count_def Let_def filter_bind_io filter_perform filter_lift_io
      split: sum.splits)

lemma no_pairs_gap_time: "filter is_pairs_file (fst (gap_time L df)) = []"
  by (simp add: gap_time_def Let_def filter_bind_io filter_perform filter_lift_io
      split: sum.splits)

lemma no_pairs_clock: "filter is_pairs_file (fst (clock L df)) = []"
  by (simp add: clock_def filter_bind_io filter_perform filter_lift_io split: sum.splits)

subsection \<open>Groups, counts and pairs\<close>

lemma traverse_key_pairs:
  assumes "traverse_e (\<lambda>r. bind_e (key_of (f r)) (\<lambda>k. Inr (k, r))) df = Inr krs"
  shows "map snd krs = df" and "\<forall>kr\<in>set krs. key_of (f (snd kr)) = Inr (fst kr)"
proof -
  from assms have a: "list_all2 (\<lambda>r kr. key_of (f r) = Inr (fst kr) \<and> snd kr = r) df krs"
    unfolding traverse_e_Inr_iff
    by (rule list_all2_mono) (auto simp: bind_e_Inr_iff)
  show "map snd krs = df"
  proof (rule nth_equalityI)
    show "length (map snd krs) = length df"
      using list_all2_lengthD[OF a] by simp
    fix i assume "i < length (map snd krs)"
    then have "i < length df" "i < length krs"
      using list_all2_lengthD[OF a] by simp_all
    with list_all2_nthD[OF a, of i] show "map snd krs ! i = df ! i" by simp
  qed
  show "\<forall>kr\<in>set krs. key_of (f (snd kr)) = Inr (fst kr)"
  proof
    fix kr assume "kr \<in> set krs"
    then obtain i where i: "i < length krs" "krs ! i = kr"
      by (auto simp: in_set_conv_nth)
    then have "i < length df" using list_all2_lengthD[OF a] by simp
    from list_all2_nthD[OF a this] i(2) show "key_of (f (snd kr)) = Inr (fst kr)"
      by simp
  qed
qed

lemma groupby_groups:
  assumes "groupby f df = Inr groups"
  shows "distinct (map fst groups)"
    and "set (map fst groups) = {k. k \<noteq> KNone \<and> (\<exists>r\<in>set df. key_of (f r) = Inr k)}"
    and "groups = map (\<lambda>k. (k, filter (\<lambda>r. key_of (f r) = Inr k) df)) (map fst groups)"
proof -
  from assms obtain krs where
    t: "traverse_e (\<lambda>r. bind_e (key_of (f r)) (\<lambda>k. Inr (k, r))) df = Inr krs" and
    g: "groups = map (\<lambda>k. (k, map snd (filter (\<lambda>kr. fst kr = k) krs)))
          (sort_key key_rank (remdups (filter (\<lambda>k. k \<noteq> KNone) (map fst krs))))"
    unfolding groupby_def bind_e_Inr_iff by auto
  note k = traverse_key_pairs[OF t]
  let ?ks = "sort_key key_rank (remdups (filter (\<lambda>k. k \<noteq> KNone) (map fst krs)))"
  have ks: "map fst groups = ?ks"
    unfolding g by (simp add: comp_def)
  show "distinct (map fst groups)"
    unfolding ks by simp
  have "fst ` set krs = {k. \<exists>r\<in>set df. key_of (f r) = Inr k}"
  proof (intro set_eqI iffI)
    fix x assume "x \<in> fst ` set krs"
    then obtain kr where "kr \<in> set krs" "x = fst kr" by auto
    with k(2) have "key_of (f (snd kr)) = Inr x" "snd kr \<in> set (map snd krs)" by auto
    then show "x \<in> {k. \<exists>r\<in>set df. key_of (f r) = Inr k}"
      unfolding k(1) by auto
  next
    fix x assume "x \<in> {k. \<exists>r\<in>set df. key_of (f r) = Inr k}"
    then obtain r where "r \<in> set (map snd krs)" "key_of (f r) = Inr x"
      unfolding k(1) by auto
    then obtain kr where "kr \<in> set krs" "key_of (f (snd kr)) = Inr x" by auto
    with k(2) have "fst kr = x" by auto
    with \<open>kr \<in> set krs\<close> show "x \<in> fst ` set krs" by auto
  qed
  then show "set (map fst groups) = {k. k \<noteq> KNone \<and> (\<exists>r\<in>set df. key_of (f r) = Inr k)}"
    unfolding ks by auto
  have "map snd (filter (\<lambda>kr. fst kr = x) krs) = filter (\<lambda>r. key_of (f r) = Inr x) df" for x
  proof -
    have "filter (\<lambda>kr. fst kr = x) krs = filter (\<lambda>kr. key_of (f (snd kr)) = Inr x) krs"
      using k(2) by (intro filter_cong) auto
    then have "map snd (filter (\<lambda>kr. fst kr = x) krs) =
        filter (\<lambda>r. key_of (f r) = Inr x) (map snd krs)"
      by (simp add: filter_map comp_def)
    then show ?thesis unfolding k(1) .
  qed
  then show "groups = map (\<lambda>k. (k, filter (\<lambda>r. key_of (f r) = Inr k) df)) (map fst groups)"
    unfolding ks unfolding g by simp
qed

lemma count_in_update:
  "count_in (AList.update x v d) k = (if k = x then v else count_in d k)"
  by (simp add: count_in_def update_conv')

lemma map_of_count_fold:
  "map_of (foldl (\<lambda>d x. AList.update x (case map_of d x of None \<Rightarrow> 1 | Some n \<Rightarrow> Suc n) d) d xs) k =
     (if k \<in> set xs then Some (count_list xs k + count_in d k) else map_of d k)"
proof (induction xs arbitrary: d)
  case Nil
  then show ?case by simp
next
  case (Cons x xs)
  show ?case
    unfolding foldl_Cons Cons.IH
    by (auto simp: count_in_update update_conv' count_in_def split: option.splits)
qed

lemma distinct_count_fold:
  "distinct (map fst d) \<Longrightarrow>
     distinct (map fst (foldl (\<lambda>d x. AList.update x (case map_of d x of None \<Rightarrow> 1 | Some n \<Rightarrow> Suc n) d) d xs))"
  by (induction xs arbitrary: d) (simp_all add: distinct_update)

lemma map_of_Counter:
  "map_of (Counter xs) k = (if k \<in> set xs then Some (count_list xs k) else None)"
  unfolding Counter_def map_of_count_fold by (simp add: count_in_def)

lemma distinct_Counter: "distinct (map fst (Counter xs))"
  unfolding Counter_def by (rule distinct_count_fold) simp

lemma count_in_Counter: "count_in (Counter xs) k = count_list xs k"
  by (simp add: count_in_def map_of_Counter count_list_0_iff)

lemma distinct_most_common: "distinct (map fst (most_common d)) = distinct (map fst d)"
proof -
  have "mset (map fst (most_common d)) = mset (map fst d)"
    unfolding most_common_def by simp
  then show ?thesis by (rule mset_eq_imp_distinct_iff)
qed

lemma map_of_most_common:
  assumes "distinct (map fst d)"
  shows "map_of (most_common d) = map_of d"
proof -
  have "set (most_common d) = set d"
    unfolding most_common_def by simp
  with assms show ?thesis
    by (simp add: map_of_inject_set distinct_most_common)
qed

lemma count_in_most_common: "count_in (most_common (Counter xs)) k = count_list xs k"
  by (simp add: count_in_def map_of_most_common distinct_Counter map_of_Counter count_list_0_iff)

lemma positive_most_common:
  assumes "kv \<in> set (most_common (Counter xs))"
  shows "0 < snd kv"
proof -
  from assms have "kv \<in> set (Counter xs)"
    unfolding most_common_def by simp
  then have "(fst kv, snd kv) \<in> set (Counter xs)" by simp
  then have "map_of (Counter xs) (fst kv) = Some (snd kv)"
    by (simp only: map_of_eq_Some_iff[OF distinct_Counter])
  then have "fst kv \<in> set xs" "snd kv = count_list xs (fst kv)"
    by (auto simp: map_of_Counter split: if_splits)
  then show ?thesis
    using count_list_0_iff[of xs "fst kv"] by simp
qed

lemma sorted_pair_eq_iff: "sorted_pair x y = (a, b) \<longleftrightarrow> a \<le> b \<and> {x, y} = {a, b}"
  by (auto simp: sorted_pair_def doubleton_eq_iff)

lemma zip_tl: "zip cs (tl cs) = map (\<lambda>i. (cs ! i, cs ! Suc i)) [0..<length cs - 1]"
  by (rule nth_equalityI) (auto simp: nth_tl)

lemma count_list_map: "count_list (map f zs) k = length (filter (\<lambda>z. f z = k) zs)"
  by (induction zs) auto

lemma count_adjacent_pairs:
  "count_list (adjacent_pairs cs) (a, b) = (if a \<le> b then adjacent_count cs a b else 0)"
  unfolding adjacent_pairs_def adjacent_count_def count_list_map zip_tl
  by (simp add: filter_map comp_def sorted_pair_eq_iff)

lemma count_list_concat: "count_list (concat xss) k = sum_list (map (\<lambda>xs. count_list xs k) xss)"
  by (induction xss) simp_all

lemma content_strs_rows:
  assumes "content_strs df = Inr rcs"
  shows "map fst rcs = df" and "\<forall>rc\<in>set rcs. content (fst rc) = JStr (snd rc)"
proof -
  have s: "str_of j = Inr c \<longleftrightarrow> j = JStr c" for j c
    by (cases j) auto
  from assms have a: "list_all2 (\<lambda>r rc. fst rc = r \<and> content r = JStr (snd rc)) df rcs"
    unfolding content_strs_def traverse_e_Inr_iff
    by (rule list_all2_mono) (auto simp: bind_e_Inr_iff s)
  show "map fst rcs = df"
  proof (rule nth_equalityI)
    show "length (map fst rcs) = length df"
      using list_all2_lengthD[OF a] by simp
    fix i assume "i < length (map fst rcs)"
    then have "i < length df" "i < length rcs"
      using list_all2_lengthD[OF a] by simp_all
    with list_all2_nthD[OF a, of i] show "map fst rcs ! i = df ! i" by simp
  qed
  show "\<forall>rc\<in>set rcs. content (fst rc) = JStr (snd rc)"
  proof
    fix rc assume "rc \<in> set rcs"
    then obtain i where i: "i < length rcs" "rcs ! i = rc"
      by (auto simp: in_set_conv_nth)
    then have "i < length df" using list_all2_lengthD[OF a] by simp
    from list_all2_nthD[OF a this] i(2) show "content (fst rc) = JStr (snd rc)"
      by simp
  qed
qed

lemma pair_lines_groupby:
  assumes "groupby (\<lambda>rc. file_id (fst rc)) tokens = Inr groups"
  shows "pair_lines tokens
           (most_common (Counter (concat (map (\<lambda>kg. adjacent_pairs (map snd (snd kg))) groups))))"
proof -
  let ?ngs = "concat (map (\<lambda>kg. adjacent_pairs (map snd (snd kg))) groups)"
  let ?ks = "map fst groups"
  note g = groupby_groups[OF assms]
  have ks: "set ?ks = file_keys tokens"
    unfolding g(2) file_keys_def ..
  have "sum_list (map (\<lambda>kg. h (map snd (snd kg))) groups) =
      (\<Sum>k\<in>file_keys tokens. h (file_contents tokens k))" for h :: "string list \<Rightarrow> nat"
  proof -
    have m: "map (\<lambda>kg. h (map snd (snd kg))) groups = map (\<lambda>k. h (file_contents tokens k)) ?ks"
      by (subst g(3)) (simp add: comp_def file_contents_def)
    have "sum_list (map (\<lambda>kg. h (map snd (snd kg))) groups) =
        sum_list (map (\<lambda>k. h (file_contents tokens k)) ?ks)"
      by (simp only: m)
    also have "\<dots> = (\<Sum>k\<in>set ?ks. h (file_contents tokens k))"
      by (rule sum_list_distinct_conv_sum_set[OF g(1)])
    also have "\<dots> = (\<Sum>k\<in>file_keys tokens. h (file_contents tokens k))"
      by (simp only: ks)
    finally show ?thesis .
  qed
  from this[of "\<lambda>cs. adjacent_count cs a b" for a b]
  have "count_list ?ngs (a, b) =
      (if a \<le> b then (\<Sum>k\<in>file_keys tokens. adjacent_count (file_contents tokens k) a b) else 0)"
    for a b
    by (simp add: count_list_concat comp_def count_adjacent_pairs)
  then show ?thesis
    unfolding pair_lines_def
    by (simp add: count_in_most_common distinct_most_common distinct_Counter positive_most_common)
qed

text \<open>
  Claim C5. When \<open>ngrams\<close> ends without an exception, every cell of \<open>content\<close> is a
  string, and each of the two files counts adjacent pairs of the rows its mask selects:
  for every pair \<open>a \<le> b\<close> the count is the number of places where \<open>a\<close> and \<open>b\<close>, in
  either order, are the contents of two consecutive selected rows of one file, summed
  over the files. A pair is stored with its smaller content first, so that \<open>(a, b)\<close>
  and \<open>(b, a)\<close> are one key, and no pair is made of rows of two files.
\<close>

theorem ngram_counts:
  assumes "ngrams L df = (effs, Inr ())"
  shows "\<exists>rcs canine human.
           map fst rcs = df \<and> (\<forall>rc\<in>set rcs. content (fst rc) = JStr (snd rc)) \<and>
           effs =
             [Write_file ''data/canine_ngrams.csv'' canine,
              Write_file ''data/human_ngrams.csv'' human] \<and>
           pair_lines (filter canine_token_mask rcs) canine \<and>
           pair_lines (filter (press_mask ''homo sapiens'') rcs) human"
proof -
  from ngrams_returns[OF assms] obtain rcs cg hg where
    r: "content_strs df = Inr rcs" and
    c: "groupby (\<lambda>rc. file_id (fst rc)) (filter canine_token_mask rcs) = Inr cg" and
    h: "groupby (\<lambda>rc. file_id (fst rc)) (filter (press_mask ''homo sapiens'') rcs) = Inr hg" and
    e: "effs =
         [Write_file ''data/canine_ngrams.csv''
            (most_common (Counter (concat (map (\<lambda>kg. adjacent_pairs (map snd (snd kg))) cg)))),
          Write_file ''data/human_ngrams.csv''
            (most_common (Counter (concat (map (\<lambda>kg. adjacent_pairs (map snd (snd kg))) hg))))]"
    by blast
  from content_strs_rows[OF r] e pair_lines_groupby[OF c] pair_lines_groupby[OF h]
  show ?thesis by blast
qed

lemma ex_presses_ngrams:
  "ngrams ex_lib ex_presses =
     ([Write_file ''data/canine_ngrams.csv'' [((''ball'', ''out''), 2)],
       Write_file ''data/human_ngrams.csv'' []], Inr ())"
  by code_simp

text \<open>The presses \<open>ball\<close>, \<open>out\<close>, \<open>ball\<close> of one file give the pair \<open>(ball, out)\<close> twice.\<close>

theorem ngram_counts_witness:
  "ngrams ex_lib ex_presses =
     ([Write_file ''data/canine_ngrams.csv'' [((''ball'', ''out''), 2)],
       Write_file ''data/human_ngrams.csv'' []], Inr ()) \<and>
   (\<exists>rcs. map fst rcs = ex_presses \<and>
      pair_lines (filter canine_token_mask rcs) [((''ball'', ''out''), 2)] \<and>
      pair_lines (filter (press_mask ''homo sapiens'') rcs) [])"
proof -
  from ngram_counts[OF ex_presses_ngrams]
  have "\<exists>rcs. map fst rcs = ex_presses \<and>
      pair_lines (filter canine_token_mask rcs) [((''ball'', ''out''), 2)] \<and>
      pair_lines (filter (press_mask ''homo sapiens'') rcs) []"
    by auto
  with ex_presses_ngrams show ?thesis by (rule conjI)
qed

subsection \<open>The bins of \<open>clock\<close>\<close>

lemma traverse_hours:
  "traverse_e (\<lambda>r. case start r of None \<Rightarrow> Inl ValueError | Some t \<Rightarrow> Inr (hour t)) rows = Inr hours
     \<Longrightarrow> hours = concat (map (\<lambda>r. case start r of None \<Rightarrow> [] | Some t \<Rightarrow> [hour t]) rows)"
proof (induction rows arbitrary: hours)
  case Nil
  then show ?case by simp
next
  case (Cons r rows)
  then show ?case
    by (auto simp: bind_e_Inr_iff split: option.splits)
qed

lemma clock_returns:
  assumes "clock L df = (effs, Inr u)"
  shows "effs =
    [Savefig ''data/press_by_hour.png'' (Polar_bar (histogram (canine_hours df) N) bottom)]"
  using assms unfolding clock_def canine_hours_def
  by (elim bind_io_InrE) (auto simp: perform_Inr_iff lift_io_iff dest: traverse_hours)

text \<open>
  Claim C10, amended. The histogram of \<open>clock\<close> is that of the hours of the canine
  rows, and it has 23 bins (\<open>N = 23\<close>), not 24, which divide the range from the least
  to the greatest hour that occurs. When the hours 0 and 23 both occur, so that all 24
  hours are within the range, every hour \<open>h\<close> falls into bin \<open>min h 22\<close>: the hours 22
  and 23 are two distinct hours in the same bin, the last one, whose count is the
  number of events at 22 plus the number at 23.
\<close>

theorem clock_bins:
  "N = 23 \<and> length (histogram hours N) = 23 \<and>
   (clock L df = (effs, Inr ()) \<longrightarrow>
      effs =
        [Savefig ''data/press_by_hour.png'' (Polar_bar (histogram (canine_hours df) N) bottom)]) \<and>
   (0 \<in> set hours \<and> 23 \<in> set hours \<and> (\<forall>h\<in>set hours. 0 \<le> h \<and> h \<le> 23) \<longrightarrow>
      (\<forall>h\<in>set hours.
         bin_index (fst (outer_edges hours)) (snd (outer_edges hours)) N (of_int h) = nat (min h 22)) \<and>
      bin_index (fst (outer_edges hours)) (snd (outer_edges hours)) N 22 =
      bin_index (fst (outer_edges hours)) (snd (outer_edges hours)) N 23 \<and>
      histogram hours N ! 22 = count_list hours 22 + count_list hours 23)"
proof (intro conjI impI)
  show "N = 23" by (simp add: N_def)
  show "length (histogram hours N) = 23" by (simp add: length_histogram N_def)
next
  assume "clock L df = (effs, Inr ())"
  then show "effs =
      [Savefig ''data/press_by_hour.png'' (Polar_bar (histogram (canine_hours df) N) bottom)]"
    by (rule clock_returns)
next
  assume a: "0 \<in> set hours \<and> 23 \<in> set hours \<and> (\<forall>h\<in>set hours. 0 \<le> h \<and> h \<le> 23)"
  then have oe: "outer_edges hours = (0, 23)" by (simp add: outer_edges_full)
  show "\<forall>h\<in>set hours.
         bin_index (fst (outer_edges hours)) (snd (outer_edges hours)) N (of_int h) = nat (min h 22)"
    using a by (simp add: oe bin_index_hour)
  have b22: "bin_index 0 23 N 22 = 22" using bin_index_hour[of 22] by simp
  have b23: "bin_index 0 23 N 23 = 22" using bin_index_hour[of 23] by simp
  show "bin_index (fst (outer_edges hours)) (snd (outer_edges hours)) N 22 =
      bin_index (fst (outer_edges hours)) (snd (outer_edges hours)) N 23"
    by (simp add: oe b22 b23)
  have "filter (\<lambda>x. bin_index 0 23 N (of_int x) = 22) hours = filter (\<lambda>x. x = 22 \<or> x = 23) hours"
    using a by (intro filter_cong) (auto simp: bin_index_hour min_def)
  moreover have "length (filter (\<lambda>x. x = 22 \<or> x = 23) xs) = count_list xs 22 + count_list xs (23::int)" for xs
    by (induction xs) auto
  ultimately show "histogram hours N ! 22 = count_list hours 22 + count_list hours 23"
    by (simp add: histogram_def oe N_def Let_def)
qed



lemma ex_turn_clock: "snd (clock ex_lib ex_turn) = Inr ()"
  by code_simp

text \<open>
  The hours 0 to 23, each once: the last bin counts two events. The chart of the
  example rows is that of their canine hours.
\<close>

theorem clock_bins_witness:
  "N = 23 \<and> length (histogram [0..23] N) = 23 \<and>
   clock ex_lib ex_turn = (fst (clock ex_lib ex_turn), Inr ()) \<and>
   fst (clock ex_lib ex_turn) =
     [Savefig ''data/press_by_hour.png'' (Polar_bar (histogram (canine_hours ex_turn) N) bottom)] \<and>
   bin_index (fst (outer_edges [0..23])) (snd (outer_edges [0..23])) N 22 =
   bin_index (fst (outer_edges [0..23])) (snd (outer_edges [0..23])) N 23 \<and>
   histogram [0..23] N ! 22 = 2"
proof -
  have e: "[0..23] = [0,1,2,3,4,5,6,7,8,9,10,11,12,13,14,15,16,17,18,19,20,21,22,23::int]"
    by code_simp
  have h: "0 \<in> set [0..23::int] \<and> 23 \<in> set [0..23::int] \<and> (\<forall>h\<in>set [0..23::int]. 0 \<le> h \<and> h \<le> 23)"
    by simp
  have c: "count_list [0..23] 22 + count_list [0..23] (23::int) = 2"
    unfolding e by simp
  have k: "clock ex_lib ex_turn = (fst (clock ex_lib ex_turn), Inr ())"
    using ex_turn_clock by (simp add: prod_eq_iff)
  note t = clock_bins[of "[0..23]" ex_lib ex_turn "fst (clock ex_lib ex_turn)"]
  note v = t[THEN conjunct2, THEN conjunct2, THEN conjunct1, THEN mp, OF k]
  note u = t[THEN conjunct2, THEN conjunct2, THEN conjunct2, THEN mp, OF h]
  show ?thesis
    using t[THEN conjunct1] t[THEN conjunct2, THEN conjunct1] k v
      u[THEN conjunct2, THEN conjunct1] u[THEN conjunct2, THEN conjunct2]
    by (simp only: c simp_thms)
qed

subsection \<open>\<open>gap_time\<close>\<close>

lemma cell_eq_scalar: "scalar a \<Longrightarrow> scalar b \<Longrightarrow> cell_eq a b = same_species a b"
  by (cases a; cases b) (auto simp: cell_eq_def same_species_def)

lemma cell_eq_JNull: "\<not> cell_eq JNull b" "\<not> cell_eq a JNull"
  by (simp_all add: cell_eq_def)

lemma same_species_cell_eq: "same_species a b \<Longrightarrow> cell_eq a b"
  by (cases a; cases b) (auto simp: cell_eq_def same_species_def)

lemma gap_gap_row:
  "gap (gap_row L prev r) =
     (case prev of
        None \<Rightarrow> None
      | Some p \<Rightarrow> if cell_eq (species p) (species r) then gap_after L p r else None)"
  by (cases prev)
    (auto simp: gap_row_def Let_def drow.extend_def gap_after_def split: option.splits)

lemma truncate_gap_row: "drow.truncate (gap_row L prev r) = r"
  by (simp add: gap_row_def Let_def drow.extend_def drow.truncate_def)

lemma length_inner_gap_time: "length (inner_gap_time L df) = length (sort_values L df)"
  by (simp add: inner_gap_time_def Let_def)

lemma inner_gap_time_nth:
  assumes "i < length (sort_values L df)"
  shows "inner_gap_time L df ! i =
           gap_row L (if i = 0 then None else Some (sort_values L df ! (i - 1))) (sort_values L df ! i)"
  using assms by (simp add: inner_gap_time_def Let_def nth_Cons')

lemma gap_inner_gap_time:
  assumes "i < length (sort_values L df)"
  shows "gap (inner_gap_time L df ! i) =
           (if 0 < i \<and> cell_eq (species (sort_values L df ! (i - 1))) (species (sort_values L df ! i))
            then gap_after L (sort_values L df ! (i - 1)) (sort_values L df ! i)
            else None)"
  unfolding inner_gap_time_nth[OF assms] gap_gap_row by simp

lemma truncate_inner_gap_time:
  assumes "i < length (sort_values L df)"
  shows "drow.truncate (inner_gap_time L df ! i) = sort_values L df ! i"
  unfolding inner_gap_time_nth[OF assms] by (rule truncate_gap_row)

text \<open>The gap of a row of a sorted group, without the comparison of the cells.\<close>

lemma gap_of_row:
  assumes "i < length (sort_values L df)"
  shows "(i = 0 \<longrightarrow> gap (inner_gap_time L df ! i) = None) \<and>
         (species (sort_values L df ! (i - 1)) = JNull \<or> species (sort_values L df ! i) = JNull \<longrightarrow>
            gap (inner_gap_time L df ! i) = None) \<and>
         (0 < i \<and> same_species (species (sort_values L df ! (i - 1))) (species (sort_values L df ! i)) \<longrightarrow>
            gap (inner_gap_time L df ! i) = gap_after L (sort_values L df ! (i - 1)) (sort_values L df ! i)) \<and>
         (scalar (species (sort_values L df ! (i - 1))) \<and> scalar (species (sort_values L df ! i)) \<and>
          \<not> same_species (species (sort_values L df ! (i - 1))) (species (sort_values L df ! i)) \<longrightarrow>
            gap (inner_gap_time L df ! i) = None)"
  unfolding gap_inner_gap_time[OF assms]
  using cell_eq_JNull by (auto simp: cell_eq_scalar same_species_cell_eq)

lemma bind_io_lift_Inr: "bind_io (lift_io (Inr v)) f = f v"
  by (simp add: bind_io_def lift_io_def split: prod.splits)

lemma gap_time_groups:
  assumes "groupby file_id df = Inr groups"
  shows "gap_time L df =
           perform L (Savefig ''data/gaps.png''
             (Swarmplot
                (map (\<lambda>r. (rename (species r), gap r))
                   (concat (map (\<lambda>kg. inner_gap_time L (snd kg)) groups)) @
                 map (\<lambda>r. (JStr ''total'', gap r))
                   (concat (map (\<lambda>kg. inner_gap_time L (snd kg)) groups)))))"
  by (simp add: gap_time_def gap_table_def assms bind_io_lift_Inr Let_def comp_def rename_def)

lemma group_rows:
  assumes "groupby f df = Inr groups" and "kg \<in> set groups"
  shows "fst kg \<noteq> KNone" and "snd kg = filter (\<lambda>r. key_of (f r) = Inr (fst kg)) df"
proof -
  note g = groupby_groups[OF assms(1)]
  from assms(2) have "fst kg \<in> set (map fst groups)" by simp
  then show "fst kg \<noteq> KNone" unfolding g(2) by simp
  from assms(2) have "kg \<in> set (map (\<lambda>k. (k, filter (\<lambda>r. key_of (f r) = Inr k) df)) (map fst groups))"
    using g(3) by simp
  then show "snd kg = filter (\<lambda>r. key_of (f r) = Inr (fst kg)) df"
    by auto
qed

lemma ex_lib_sorts: "sorts_by_start (sort_values ex_lib)"
  by (simp add: sorts_by_start_def ex_lib_def)

lemma ex_talk_groups: "groupby file_id ex_talk = Inr [(KStr ''f1'', ex_talk)]"
  by code_simp

lemma ex_talk_sorted: "sort_values ex_lib ex_talk = ex_talk"
  by code_simp

lemma ex_talk_gaps: "map gap (inner_gap_time ex_lib ex_talk) = [None, Some 2, None]"
  by code_simp


text \<open>
  Claim C3, amended. The rows are grouped by \<open>file_id\<close> (rows without one are left
  out) and each group is sorted by \<open>start\<close>. In the sorted group, the gap of a row is
  its \<open>start\<close> minus the \<open>end\<close> of the row before it, converted to seconds by the
  library, when that row has the same species, a string or a number and not null.
  The first row of a group has no gap, and neither has a row whose species or whose
  predecessor's species is null, or whose species, a string or a number, is another
  than its predecessor's.
\<close>

theorem gap_is_start_minus_previous_end:
  assumes "sorts_by_start (sort_values L)" and "groupby file_id df = Inr groups"
  shows "gap_table L df = Inr (concat (map (\<lambda>kg. inner_gap_time L (snd kg)) groups)) \<and>
         distinct (map fst groups) \<and>
         set (map fst groups) = {k. k \<noteq> KNone \<and> (\<exists>r\<in>set df. key_of (file_id r) = Inr k)} \<and>
         (\<forall>kg\<in>set groups.
            snd kg = filter (\<lambda>r. key_of (file_id r) = Inr (fst kg)) df \<and>
            mset (sort_values L (snd kg)) = mset (snd kg) \<and>
            sorted (map start_key (sort_values L (snd kg))) \<and>
            length (inner_gap_time L (snd kg)) = length (sort_values L (snd kg)) \<and>
            (\<forall>i<length (sort_values L (snd kg)).
               drow.truncate (inner_gap_time L (snd kg) ! i) = sort_values L (snd kg) ! i \<and>
               (i = 0 \<longrightarrow> gap (inner_gap_time L (snd kg) ! i) = None) \<and>
               (species (sort_values L (snd kg) ! (i - 1)) = JNull \<or>
                species (sort_values L (snd kg) ! i) = JNull \<longrightarrow>
                  gap (inner_gap_time L (snd kg) ! i) = None) \<and>
               (0 < i \<and>
                same_species (species (sort_values L (snd kg) ! (i - 1)))
                  (species (sort_values L (snd kg) ! i)) \<longrightarrow>
                  gap (inner_gap_time L (snd kg) ! i) =
                    gap_after L (sort_values L (snd kg) ! (i - 1)) (sort_values L (snd kg) ! i)) \<and>
               (scalar (species (sort_values L (snd kg) ! (i - 1))) \<and>
                scalar (species (sort_values L (snd kg) ! i)) \<and>
                \<not> same_species (species (sort_values L (snd kg) ! (i - 1)))
                    (species (sort_values L (snd kg) ! i)) \<longrightarrow>
                  gap (inner_gap_time L (snd kg) ! i) = None)))"
proof -
  note g = groupby_groups[OF assms(2)]
  have t: "gap_table L df = Inr (concat (map (\<lambda>kg. inner_gap_time L (snd kg)) groups))"
    by (simp add: gap_table_def assms(2))
  have s: "mset (sort_values L x) = mset x \<and> sorted (map start_key (sort_values L x))" for x
    using assms(1) by (simp add: sorts_by_start_def)
  have r: "snd kg = filter (\<lambda>r. key_of (file_id r) = Inr (fst kg)) df" if "kg \<in> set groups" for kg
    using group_rows(2)[OF assms(2) that] .
  show ?thesis
  proof (intro conjI)
    show "gap_table L df = Inr (concat (map (\<lambda>kg. inner_gap_time L (snd kg)) groups))"
      by (rule t)
    show "distinct (map fst groups)" by (rule g(1))
    show "set (map fst groups) = {k. k \<noteq> KNone \<and> (\<exists>r\<in>set df. key_of (file_id r) = Inr k)}"
      by (rule g(2))
    show "\<forall>kg\<in>set groups.
            snd kg = filter (\<lambda>r. key_of (file_id r) = Inr (fst kg)) df \<and>
            mset (sort_values L (snd kg)) = mset (snd kg) \<and>
            sorted (map start_key (sort_values L (snd kg))) \<and>
            length (inner_gap_time L (snd kg)) = length (sort_values L (snd kg)) \<and>
            (\<forall>i<length (sort_values L (snd kg)).
               drow.truncate (inner_gap_time L (snd kg) ! i) = sort_values L (snd kg) ! i \<and>
               (i = 0 \<longrightarrow> gap (inner_gap_time L (snd kg) ! i) = None) \<and>
               (species (sort_values L (snd kg) ! (i - 1)) = JNull \<or>
                species (sort_values L (snd kg) ! i) = JNull \<longrightarrow>
                  gap (inner_gap_time L (snd kg) ! i) = None) \<and>
               (0 < i \<and>
                same_species (species (sort_values L (snd kg) ! (i - 1)))
                  (species (sort_values L (snd kg) ! i)) \<longrightarrow>
                  gap (inner_gap_time L (snd kg) ! i) =
                    gap_after L (sort_values L (snd kg) ! (i - 1)) (sort_values L (snd kg) ! i)) \<and>
               (scalar (species (sort_values L (snd kg) ! (i - 1))) \<and>
                scalar (species (sort_values L (snd kg) ! i)) \<and>
                \<not> same_species (species (sort_values L (snd kg) ! (i - 1)))
                    (species (sort_values L (snd kg) ! i)) \<longrightarrow>
                  gap (inner_gap_time L (snd kg) ! i) = None))"
    proof (rule ballI, intro conjI)
      fix kg assume kg: "kg \<in> set groups"
      show "snd kg = filter (\<lambda>r. key_of (file_id r) = Inr (fst kg)) df"
        using kg by (rule r)
      show "mset (sort_values L (snd kg)) = mset (snd kg)"
        using s by (rule conjunct1)
      show "sorted (map start_key (sort_values L (snd kg)))"
        using s by (rule conjunct2)
      show "length (inner_gap_time L (snd kg)) = length (sort_values L (snd kg))"
        by (rule length_inner_gap_time)
      show "\<forall>i<length (sort_values L (snd kg)).
               drow.truncate (inner_gap_time L (snd kg) ! i) = sort_values L (snd kg) ! i \<and>
               (i = 0 \<longrightarrow> gap (inner_gap_time L (snd kg) ! i) = None) \<and>
               (species (sort_values L (snd kg) ! (i - 1)) = JNull \<or>
                species (sort_values L (snd kg) ! i) = JNull \<longrightarrow>
                  gap (inner_gap_time L (snd kg) ! i) = None) \<and>
               (0 < i \<and>
                same_species (species (sort_values L (snd kg) ! (i - 1)))
                  (species (sort_values L (snd kg) ! i)) \<longrightarrow>
                  gap (inner_gap_time L (snd kg) ! i) =
                    gap_after L (sort_values L (snd kg) ! (i - 1)) (sort_values L (snd kg) ! i)) \<and>
               (scalar (species (sort_values L (snd kg) ! (i - 1))) \<and>
                scalar (species (sort_values L (snd kg) ! i)) \<and>
                \<not> same_species (species (sort_values L (snd kg) ! (i - 1)))
                    (species (sort_values L (snd kg) ! i)) \<longrightarrow>
                  gap (inner_gap_time L (snd kg) ! i) = None)"
      proof (rule allI, rule impI)
        fix i assume i: "i < length (sort_values L (snd kg))"
        from truncate_inner_gap_time[OF i] gap_of_row[OF i]
        show "drow.truncate (inner_gap_time L (snd kg) ! i) = sort_values L (snd kg) ! i \<and>
               (i = 0 \<longrightarrow> gap (inner_gap_time L (snd kg) ! i) = None) \<and>
               (species (sort_values L (snd kg) ! (i - 1)) = JNull \<or>
                species (sort_values L (snd kg) ! i) = JNull \<longrightarrow>
                  gap (inner_gap_time L (snd kg) ! i) = None) \<and>
               (0 < i \<and>
                same_species (species (sort_values L (snd kg) ! (i - 1)))
                  (species (sort_values L (snd kg) ! i)) \<longrightarrow>
                  gap (inner_gap_time L (snd kg) ! i) =
                    gap_after L (sort_values L (snd kg) ! (i - 1)) (sort_values L (snd kg) ! i)) \<and>
               (scalar (species (sort_values L (snd kg) ! (i - 1))) \<and>
                scalar (species (sort_values L (snd kg) ! i)) \<and>
                \<not> same_species (species (sort_values L (snd kg) ! (i - 1)))
                    (species (sort_values L (snd kg) ! i)) \<longrightarrow>
                  gap (inner_gap_time L (snd kg) ! i) = None)"
          by (rule conjI)
      qed
    qed
  qed
qed

text \<open>
  Claim C3 as it is written fails where the species changes: the two rows of
  \<open>ex_turn\<close> are one group, already sorted, and the second starts two seconds after
  the end of the first, but neither row has a gap.
\<close>

theorem gap_of_other_species_counterexample:
  "groupby file_id ex_turn = Inr [(KStr ''f1'', ex_turn)] \<and>
   sort_values ex_lib ex_turn = ex_turn \<and>
   gap_after ex_lib (ex_turn ! 0) (ex_turn ! 1) = Some 2 \<and>
   map_sum id (map gap) (gap_table ex_lib ex_turn) = Inr [None, None]"
  by code_simp

text \<open>
  Two presses of a dog and one of a human: the second row starts two seconds after
  the end of the first and has that gap; the first row and the human's have none.
\<close>

theorem gap_is_start_minus_previous_end_witness:
  "sorts_by_start (sort_values ex_lib) \<and>
   groupby file_id ex_talk = Inr [(KStr ''f1'', ex_talk)] \<and>
   gap_table ex_lib ex_talk = Inr (inner_gap_time ex_lib ex_talk) \<and>
   sorted (map start_key (sort_values ex_lib ex_talk)) \<and>
   gap (inner_gap_time ex_lib ex_talk ! 0) = None \<and>
   gap (inner_gap_time ex_lib ex_talk ! 1) = gap_after ex_lib (ex_talk ! 0) (ex_talk ! 1) \<and>
   gap_after ex_lib (ex_talk ! 0) (ex_talk ! 1) = Some 2 \<and>
   gap (inner_gap_time ex_lib ex_talk ! 2) = None"
proof -
  note t = gap_is_start_minus_previous_end[OF ex_lib_sorts ex_talk_groups]
  have k: "(KStr ''f1'', ex_talk) \<in> set [(KStr ''f1'', ex_talk)]" by simp
  note u = t[THEN conjunct2, THEN conjunct2, THEN conjunct2, rule_format, OF k,
      simplified snd_conv ex_talk_sorted]
  note rows = u[THEN conjunct2, THEN conjunct2, THEN conjunct2, THEN conjunct2, rule_format]
  have l: "0 < length ex_talk" "1 < length ex_talk" "2 < length ex_talk"
    by (simp_all add: ex_talk_def)
  have a0: "gap (inner_gap_time ex_lib ex_talk ! 0) = None"
    using rows[OF l(1), THEN conjunct2, THEN conjunct1] by simp
  have same: "0 < (1::nat) \<and> same_species (species (ex_talk ! (1 - 1))) (species (ex_talk ! 1))"
    by code_simp
  have a1: "gap (inner_gap_time ex_lib ex_talk ! 1) = gap_after ex_lib (ex_talk ! 0) (ex_talk ! 1)"
    using rows[OF l(2), THEN conjunct2, THEN conjunct2, THEN conjunct2, THEN conjunct1,
        THEN mp, OF same] by simp
  have other: "scalar (species (ex_talk ! (2 - 1))) \<and> scalar (species (ex_talk ! 2)) \<and>
      \<not> same_species (species (ex_talk ! (2 - 1))) (species (ex_talk ! 2))"
    by code_simp
  have a2: "gap (inner_gap_time ex_lib ex_talk ! 2) = None"
    using rows[OF l(3), THEN conjunct2, THEN conjunct2, THEN conjunct2, THEN conjunct2,
        THEN mp, OF other] .
  have v: "gap_after ex_lib (ex_talk ! 0) (ex_talk ! 1) = Some 2"
    by code_simp
  have g: "gap_table ex_lib ex_talk = Inr (inner_gap_time ex_lib ex_talk)"
    using t[THEN conjunct1] by simp
  have srt: "sorted (map start_key (sort_values ex_lib ex_talk))"
    using u[THEN conjunct2, THEN conjunct2, THEN conjunct1] by (simp add: ex_talk_sorted)
  from ex_lib_sorts ex_talk_groups g srt a0 a1 v a2 show ?thesis
    by (intro conjI)
qed

text \<open>
  Claim C8. The chart of \<open>gap_time\<close> plots the column \<open>gap\<close> of the groups, once
  under the label of the species and once under \<open>total\<close>. A group is the rows of one
  file, sorted by \<open>start\<close>. A row keeps a gap only if it is not the first of its
  group and neither its species nor that of the row before it is null, and, these
  being strings or numbers, only if they are the same. With the same species and
  both timestamps known the gap is kept; where the species changes it is discarded.
\<close>

theorem gap_kept_only_within_species:
  assumes "sorts_by_start (sort_values L)" and "groupby file_id df = Inr groups"
  shows "(\<exists>points.
            gap_time L df = perform L (Savefig ''data/gaps.png'' (Swarmplot points)) \<and>
            map snd points =
              concat (map (\<lambda>kg. map gap (inner_gap_time L (snd kg))) groups) @
              concat (map (\<lambda>kg. map gap (inner_gap_time L (snd kg))) groups)) \<and>
         (\<forall>kg\<in>set groups.
            snd kg = filter (\<lambda>r. key_of (file_id r) = Inr (fst kg)) df \<and>
            mset (sort_values L (snd kg)) = mset (snd kg) \<and>
            sorted (map start_key (sort_values L (snd kg))) \<and>
            (\<forall>i<length (sort_values L (snd kg)).
               (gap (inner_gap_time L (snd kg) ! i) \<noteq> None \<longrightarrow>
                  0 < i \<and>
                  species (sort_values L (snd kg) ! (i - 1)) \<noteq> JNull \<and>
                  species (sort_values L (snd kg) ! i) \<noteq> JNull \<and>
                  (scalar (species (sort_values L (snd kg) ! (i - 1))) \<and>
                   scalar (species (sort_values L (snd kg) ! i)) \<longrightarrow>
                     same_species (species (sort_values L (snd kg) ! (i - 1)))
                       (species (sort_values L (snd kg) ! i)))) \<and>
               (0 < i \<and>
                same_species (species (sort_values L (snd kg) ! (i - 1)))
                  (species (sort_values L (snd kg) ! i)) \<and>
                start (sort_values L (snd kg) ! i) \<noteq> None \<and>
                end' (sort_values L (snd kg) ! (i - 1)) \<noteq> None \<longrightarrow>
                  gap (inner_gap_time L (snd kg) ! i) \<noteq> None) \<and>
               (scalar (species (sort_values L (snd kg) ! (i - 1))) \<and>
                scalar (species (sort_values L (snd kg) ! i)) \<and>
                \<not> same_species (species (sort_values L (snd kg) ! (i - 1)))
                    (species (sort_values L (snd kg) ! i)) \<longrightarrow>
                  gap (inner_gap_time L (snd kg) ! i) = None)))"
proof -
  let ?points = "map (\<lambda>r. (rename (species r), gap r))
                  (concat (map (\<lambda>kg. inner_gap_time L (snd kg)) groups)) @
                map (\<lambda>r. (JStr ''total'', gap r))
                  (concat (map (\<lambda>kg. inner_gap_time L (snd kg)) groups))"
  have "map snd ?points =
          concat (map (\<lambda>kg. map gap (inner_gap_time L (snd kg))) groups) @
          concat (map (\<lambda>kg. map gap (inner_gap_time L (snd kg))) groups)"
    by (simp add: map_concat comp_def)
  with gap_time_groups[OF assms(2), of L]
  have p: "\<exists>points.
            gap_time L df = perform L (Savefig ''data/gaps.png'' (Swarmplot points)) \<and>
            map snd points =
              concat (map (\<lambda>kg. map gap (inner_gap_time L (snd kg))) groups) @
              concat (map (\<lambda>kg. map gap (inner_gap_time L (snd kg))) groups)"
    by blast
  have s: "mset (sort_values L x) = mset x \<and> sorted (map start_key (sort_values L x))" for x
    using assms(1) by (simp add: sorts_by_start_def)
  have r: "snd kg = filter (\<lambda>r. key_of (file_id r) = Inr (fst kg)) df" if "kg \<in> set groups" for kg
    using group_rows(2)[OF assms(2) that] .
  have known: "gap_after L a b \<noteq> None" if "start b \<noteq> None" "end' a \<noteq> None" for a b
    using that by (auto simp: gap_after_def)
  have k: "(gap (inner_gap_time L x ! i) \<noteq> None \<longrightarrow>
              0 < i \<and>
              species (sort_values L x ! (i - 1)) \<noteq> JNull \<and>
              species (sort_values L x ! i) \<noteq> JNull \<and>
              (scalar (species (sort_values L x ! (i - 1))) \<and> scalar (species (sort_values L x ! i)) \<longrightarrow>
                 same_species (species (sort_values L x ! (i - 1))) (species (sort_values L x ! i)))) \<and>
           (0 < i \<and>
            same_species (species (sort_values L x ! (i - 1))) (species (sort_values L x ! i)) \<and>
            start (sort_values L x ! i) \<noteq> None \<and>
            end' (sort_values L x ! (i - 1)) \<noteq> None \<longrightarrow>
              gap (inner_gap_time L x ! i) \<noteq> None) \<and>
           (scalar (species (sort_values L x ! (i - 1))) \<and>
            scalar (species (sort_values L x ! i)) \<and>
            \<not> same_species (species (sort_values L x ! (i - 1))) (species (sort_values L x ! i)) \<longrightarrow>
              gap (inner_gap_time L x ! i) = None)"
    if "i < length (sort_values L x)" for x i
    using gap_of_row[OF that] known by (cases "i = 0") auto
  have groups: "snd kg = filter (\<lambda>r. key_of (file_id r) = Inr (fst kg)) df \<and>
            mset (sort_values L (snd kg)) = mset (snd kg) \<and>
            sorted (map start_key (sort_values L (snd kg))) \<and>
            (\<forall>i<length (sort_values L (snd kg)).
               (gap (inner_gap_time L (snd kg) ! i) \<noteq> None \<longrightarrow>
                  0 < i \<and>
                  species (sort_values L (snd kg) ! (i - 1)) \<noteq> JNull \<and>
                  species (sort_values L (snd kg) ! i) \<noteq> JNull \<and>
                  (scalar (species (sort_values L (snd kg) ! (i - 1))) \<and>
                   scalar (species (sort_values L (snd kg) ! i)) \<longrightarrow>
                     same_species (species (sort_values L (snd kg) ! (i - 1)))
                       (species (sort_values L (snd kg) ! i)))) \<and>
               (0 < i \<and>
                same_species (species (sort_values L (snd kg) ! (i - 1)))
                  (species (sort_values L (snd kg) ! i)) \<and>
                start (sort_values L (snd kg) ! i) \<noteq> None \<and>
                end' (sort_values L (snd kg) ! (i - 1)) \<noteq> None \<longrightarrow>
                  gap (inner_gap_time L (snd kg) ! i) \<noteq> None) \<and>
               (scalar (species (sort_values L (snd kg) ! (i - 1))) \<and>
                scalar (species (sort_values L (snd kg) ! i)) \<and>
                \<not> same_species (species (sort_values L (snd kg) ! (i - 1)))
                    (species (sort_values L (snd kg) ! i)) \<longrightarrow>
                  gap (inner_gap_time L (snd kg) ! i) = None))"
    if kg: "kg \<in> set groups" for kg
  proof (intro conjI)
    show "snd kg = filter (\<lambda>r. key_of (file_id r) = Inr (fst kg)) df"
      using kg by (rule r)
    show "mset (sort_values L (snd kg)) = mset (snd kg)"
      using s by (rule conjunct1)
    show "sorted (map start_key (sort_values L (snd kg)))"
      using s by (rule conjunct2)
  next
    show "\<forall>i<length (sort_values L (snd kg)).
               (gap (inner_gap_time L (snd kg) ! i) \<noteq> None \<longrightarrow>
                  0 < i \<and>
                  species (sort_values L (snd kg) ! (i - 1)) \<noteq> JNull \<and>
                  species (sort_values L (snd kg) ! i) \<noteq> JNull \<and>
                  (scalar (species (sort_values L (snd kg) ! (i - 1))) \<and>
                   scalar (species (sort_values L (snd kg) ! i)) \<longrightarrow>
                     same_species (species (sort_values L (snd kg) ! (i - 1)))
                       (species (sort_values L (snd kg) ! i)))) \<and>
               (0 < i \<and>
                same_species (species (sort_values L (snd kg) ! (i - 1)))
                  (species (sort_values L (snd kg) ! i)) \<and>
                start (sort_values L (snd kg) ! i) \<noteq> None \<and>
                end' (sort_values L (snd kg) ! (i - 1)) \<noteq> None \<longrightarrow>
                  gap (inner_gap_time L (snd kg) ! i) \<noteq> None) \<and>
               (scalar (species (sort_values L (snd kg) ! (i - 1))) \<and>
                scalar (species (sort_values L (snd kg) ! i)) \<and>
                \<not> same_species (species (sort_values L (snd kg) ! (i - 1)))
                    (species (sort_values L (snd kg) ! i)) \<longrightarrow>
                  gap (inner_gap_time L (snd kg) ! i) = None)"
      using k by (rule_tac allI, rule_tac impI)
  qed
  show ?thesis
    by (rule conjI, rule p, rule ballI, rule groups)
qed

lemma ex_talk_points:
  "fst (gap_time ex_lib ex_talk) =
     [Savefig ''data/gaps.png''
        (Swarmplot
           [(JStr ''human -> dog'', None), (JStr ''human -> dog'', Some 2),
            (JStr ''homo sapiens'', None),
            (JStr ''total'', None), (JStr ''total'', Some 2), (JStr ''total'', None)])]"
  by code_simp

text \<open>
  Two presses of a dog and one of a human: the gap of the dog's second press is kept
  and plotted, that of the human's press, after a dog's, is discarded.
\<close>

theorem gap_kept_only_within_species_witness:
  "sorts_by_start (sort_values ex_lib) \<and>
   groupby file_id ex_talk = Inr [(KStr ''f1'', ex_talk)] \<and>
   (\<exists>points.
      gap_time ex_lib ex_talk = perform ex_lib (Savefig ''data/gaps.png'' (Swarmplot points)) \<and>
      map snd points =
        concat (map (\<lambda>kg. map gap (inner_gap_time ex_lib (snd kg))) [(KStr ''f1'', ex_talk)]) @
        concat (map (\<lambda>kg. map gap (inner_gap_time ex_lib (snd kg))) [(KStr ''f1'', ex_talk)])) \<and>
   map gap (inner_gap_time ex_lib ex_talk) = [None, Some 2, None] \<and>
   gap (inner_gap_time ex_lib ex_talk ! 1) \<noteq> None \<and>
   same_species (species (ex_talk ! 0)) (species (ex_talk ! 1)) \<and>
   \<not> same_species (species (ex_talk ! 1)) (species (ex_talk ! 2)) \<and>
   gap (inner_gap_time ex_lib ex_talk ! 2) = None"
proof -
  note t = gap_kept_only_within_species[OF ex_lib_sorts ex_talk_groups]
  have k: "(KStr ''f1'', ex_talk) \<in> set [(KStr ''f1'', ex_talk)]" by simp
  note u = t[THEN conjunct2, rule_format, OF k, simplified snd_conv ex_talk_sorted]
  note rows = u[THEN conjunct2, THEN conjunct2, THEN conjunct2, rule_format]
  have l: "1 < length ex_talk" "2 < length ex_talk"
    by (simp_all add: ex_talk_def)
  have same: "0 < (1::nat) \<and> same_species (species (ex_talk ! (1 - 1))) (species (ex_talk ! 1)) \<and>
      start (ex_talk ! 1) \<noteq> None \<and> end' (ex_talk ! (1 - 1)) \<noteq> None"
    by code_simp
  have a1: "gap (inner_gap_time ex_lib ex_talk ! 1) \<noteq> None"
    using rows[OF l(1), THEN conjunct2, THEN conjunct1, THEN mp, OF same] .
  have other: "scalar (species (ex_talk ! (2 - 1))) \<and> scalar (species (ex_talk ! 2)) \<and>
      \<not> same_species (species (ex_talk ! (2 - 1))) (species (ex_talk ! 2))"
    by code_simp
  have a2: "gap (inner_gap_time ex_lib ex_talk ! 2) = None"
    using rows[OF l(2), THEN conjunct2, THEN conjunct2, THEN mp, OF other] .
  have s01: "same_species (species (ex_talk ! 0)) (species (ex_talk ! 1))"
    using same by simp
  have s12: "\<not> same_species (species (ex_talk ! 1)) (species (ex_talk ! 2))"
    using other by simp
  from ex_lib_sorts ex_talk_groups t[THEN conjunct1] ex_talk_gaps a1 s01 s12 a2
  show ?thesis by (intro conjI)
qed

subsection \<open>The two files of pairs\<close>

text \<open>
  Claim C4. In a run of \<open>main\<close> that ends without an exception, exactly two files of
  pairs are written, \<open>data/canine_ngrams.csv\<close> and then \<open>data/human_ngrams.csv\<close>. The
  first lists the adjacent pairs of the canine button presses of the table with their
  counts, the second those of the human button presses: one line for every pair that
  occurs, none for the others. In each file the counts of the lines do not increase
  from one line to the next.
\<close>

theorem two_ranked_pair_files:
  assumes "main L data_dir data_files = (effs, Inr ())"
  shows "\<exists>rss starts ends rcs canine human.
           loaded data_files rss \<and>
           to_datetime L (map (col ''start'') (concat rss)) = Inr starts \<and>
           to_datetime L (map (col ''end'') (concat rss)) = Inr ends \<and>
           map fst rcs = DataFrame (concat rss) starts ends \<and>
           (\<forall>rc\<in>set rcs. content (fst rc) = JStr (snd rc)) \<and>
           filter is_pairs_file effs =
             [Write_file ''data/canine_ngrams.csv'' canine,
              Write_file ''data/human_ngrams.csv'' human] \<and>
           pair_lines (filter canine_token_mask rcs) canine \<and>
           pair_lines (filter (press_mask ''homo sapiens'') rcs) human \<and>
           sorted_wrt (\<ge>) (map snd canine) \<and> sorted_wrt (\<ge>) (map snd human)"
proof -
  from main_returns[OF assms] obtain rows starts ends where
    l: "load_rows data_files = Inr rows" and
    ts: "to_datetime L (map (col ''start'') rows) = Inr starts"
      "to_datetime L (map (col ''end'') rows) = Inr ends" and
    effs: "effs = [Print_text (''data directory:  '' @ data_dir),
              Print_frame (DataFrame rows starts ends),
              To_csv ''table.csv'' (DataFrame rows starts ends)] @
             fst (button_count L (DataFrame rows starts ends)) @
             fst (gap_time L (DataFrame rows starts ends)) @
             fst (clock L (DataFrame rows starts ends)) @
             fst (ngrams L (DataFrame rows starts ends))"
    and n: "snd (ngrams L (DataFrame rows starts ends)) = Inr ()"
    by blast
  let ?df = "DataFrame rows starts ends"
  from l obtain rss where rss: "loaded data_files rss" "rows = concat rss"
    unfolding load_rows_Inr_iff by blast
  from n have "ngrams L ?df = (fst (ngrams L ?df), Inr ())"
    by (simp add: prod_eq_iff)
  from ngrams_returns[OF this] obtain rcs cg hg where
    r: "content_strs ?df = Inr rcs" and
    c: "groupby (\<lambda>rc. file_id (fst rc)) (filter canine_token_mask rcs) = Inr cg" and
    h: "groupby (\<lambda>rc. file_id (fst rc)) (filter (press_mask ''homo sapiens'') rcs) = Inr hg" and
    e: "fst (ngrams L ?df) =
         [Write_file ''data/canine_ngrams.csv''
            (most_common (Counter (concat (map (\<lambda>kg. adjacent_pairs (map snd (snd kg))) cg)))),
          Write_file ''data/human_ngrams.csv''
            (most_common (Counter (concat (map (\<lambda>kg. adjacent_pairs (map snd (snd kg))) hg))))]"
    by blast
  let ?canine = "most_common (Counter (concat (map (\<lambda>kg. adjacent_pairs (map snd (snd kg))) cg)))"
  let ?human = "most_common (Counter (concat (map (\<lambda>kg. adjacent_pairs (map snd (snd kg))) hg)))"
  have f: "filter is_pairs_file effs =
       [Write_file ''data/canine_ngrams.csv'' ?canine, Write_file ''data/human_ngrams.csv'' ?human]"
    unfolding effs by (simp add: e no_pairs_button_count no_pairs_gap_time no_pairs_clock)
  note rows = content_strs_rows[OF r]
  have "loaded data_files rss \<and>
           to_datetime L (map (col ''start'') (concat rss)) = Inr starts \<and>
           to_datetime L (map (col ''end'') (concat rss)) = Inr ends \<and>
           map fst rcs = DataFrame (concat rss) starts ends \<and>
           (\<forall>rc\<in>set rcs. content (fst rc) = JStr (snd rc)) \<and>
           filter is_pairs_file effs =
             [Write_file ''data/canine_ngrams.csv'' ?canine,
              Write_file ''data/human_ngrams.csv'' ?human] \<and>
           pair_lines (filter canine_token_mask rcs) ?canine \<and>
           pair_lines (filter (press_mask ''homo sapiens'') rcs) ?human \<and>
           sorted_wrt (\<ge>) (map snd ?canine) \<and> sorted_wrt (\<ge>) (map snd ?human)"
    using rss(1) ts[unfolded rss(2)] rows[unfolded rss(2)] f
      pair_lines_groupby[OF c] pair_lines_groupby[OF h] sorted_most_common
    by (intro conjI)
  then show ?thesis by (intro exI)
qed

lemma ranked_main_returns: "snd (main ex_lib ''data'' [Inr ranked_stream]) = Inr ()"
  by code_simp

lemma ranked_main_files:
  "filter is_pairs_file (fst (main ex_lib ''data'' [Inr ranked_stream])) =
     [Write_file ''data/canine_ngrams.csv'' [((''ball'', ''out''), 2), ((''ball'', ''walk''), 1)],
      Write_file ''data/human_ngrams.csv'' [((''ball'', ''out''), 1)]]"
  by code_simp

text \<open>
  A dog presses \<open>ball\<close>, \<open>out\<close>, \<open>ball\<close>, \<open>walk\<close> and a human \<open>out\<close>, \<open>ball\<close>: the
  canine file lists \<open>(ball, out)\<close> with the count 2 before \<open>(ball, walk)\<close> with 1.
\<close>

theorem two_ranked_pair_files_witness:
  "main ex_lib ''data'' [Inr ranked_stream] =
     (fst (main ex_lib ''data'' [Inr ranked_stream]), Inr ()) \<and>
   filter is_pairs_file (fst (main ex_lib ''data'' [Inr ranked_stream])) =
     [Write_file ''data/canine_ngrams.csv'' [((''ball'', ''out''), 2), ((''ball'', ''walk''), 1)],
      Write_file ''data/human_ngrams.csv'' [((''ball'', ''out''), 1)]] \<and>
   (\<exists>rcs.
      pair_lines (filter canine_token_mask rcs) [((''ball'', ''out''), 2), ((''ball'', ''walk''), 1)] \<and>
      pair_lines (filter (press_mask ''homo sapiens'') rcs) [((''ball'', ''out''), 1)]) \<and>
   sorted_wrt (\<ge>) (map snd [((''ball'', ''out''), 2::nat), ((''ball'', ''walk''), 1)])"
proof -
  have h: "main ex_lib ''data'' [Inr ranked_stream] =
      (fst (main ex_lib ''data'' [Inr ranked_stream]), Inr ())"
    using ranked_main_returns by (simp add: prod_eq_iff)
  from two_ranked_pair_files[OF h] obtain rcs canine human where
    f: "filter is_pairs_file (fst (main ex_lib ''data'' [Inr ranked_stream])) =
             [Write_file ''data/canine_ngrams.csv'' canine,
              Write_file ''data/human_ngrams.csv'' human]" and
    p: "pair_lines (filter canine_token_mask rcs) canine"
      "pair_lines (filter (press_mask ''homo sapiens'') rcs) human" and
    s: "sorted_wrt (\<ge>) (map snd canine)"
    by blast
  from f have c: "canine = [((''ball'', ''out''), 2), ((''ball'', ''walk''), 1)]"
    and hu: "human = [((''ball'', ''out''), 1)]"
    unfolding ranked_main_files by simp_all
  from p have "\<exists>rcs.
      pair_lines (filter canine_token_mask rcs) [((''ball'', ''out''), 2), ((''ball'', ''walk''), 1)] \<and>
      pair_lines (filter (press_mask ''homo sapiens'') rcs) [((''ball'', ''out''), 1)]"
    unfolding c hu by blast
  with h ranked_main_files s[unfolded c] show ?thesis
    by (intro conjI)
qed

subsection \<open>Hours that do not reach 23\<close>

text \<open>
  Claim C10 as it is written fails when the hours do not span the whole day: the
  bins divide the range of the hours that occur. A dog presses once in each of the
  hours 0 to 22; the 23 hours fall into 23 distinct bins, and every bin of the chart
  counts one event.
\<close>

theorem hours_up_to_22_counterexample:
  "canine_hours ex_day = [0..22] \<and>
   distinct (map (\<lambda>h. bin_index (fst (outer_edges (canine_hours ex_day)))
                       (snd (outer_edges (canine_hours ex_day))) N (of_int h))
              (canine_hours ex_day)) \<and>
   clock ex_lib ex_day =
     ([Savefig ''data/press_by_hour.png'' (Polar_bar (replicate 23 1) bottom)], Inr ())"
  by code_simp

end
